theory Spec2Isabelle
  imports Main "HOL-Library.Multiset" "HOL-Library.Char_ord" "HOL-Library.List_Lexorder"
begin

section \<open>Strings\<close>

text \<open>
  JavaScript strings are modelled as \<open>string\<close> (a list of 8-bit characters), so the
  model covers ASCII text: \<open>\s\<close> is TAB, LF, VT, FF, CR and SPACE, a line terminator is
  LF or CR, and \<open>toLowerCase\<close> maps \<open>A\<close>..\<open>Z\<close> to \<open>a\<close>..\<open>z\<close>.
\<close>

abbreviation NL :: char where
  "NL \<equiv> CHR 0x0A"

abbreviation CR :: char where
  "CR \<equiv> CHR 0x0D"

definition isSpace :: "char \<Rightarrow> bool" where
  "isSpace c = (c = CHR 0x09 \<or> c = NL \<or> c = CHR 0x0B \<or> c = CHR 0x0C \<or> c = CR \<or> c = CHR '' '')"

definition isLineTerminator :: "char \<Rightarrow> bool" where
  "isLineTerminator c = (c = NL \<or> c = CR)"

definition notLineTerminator :: "char \<Rightarrow> bool" where
  "notLineTerminator c = (\<not> isLineTerminator c)"

definition toLowerChar :: "char \<Rightarrow> char" where
  "toLowerChar c =
     (if (65::nat) \<le> of_char c \<and> of_char c \<le> (90::nat) then char_of (of_char c + (32::nat)) else c)"

definition toLowerCase :: "string \<Rightarrow> string" where
  "toLowerCase s = map toLowerChar s"

text \<open>\<open>t.replace(/-/g, ' ')\<close>\<close>

definition hyphensToSpaces :: "string \<Rightarrow> string" where
  "hyphensToSpaces t = map (\<lambda>c. if c = CHR ''-'' then CHR '' '' else c) t"

text \<open>\<open>t.replace(/\s+/g, '-')\<close>: every maximal run of white space becomes one hyphen.\<close>

function spacesToHyphens :: "string \<Rightarrow> string" where
  "spacesToHyphens [] = []"
| "spacesToHyphens (c # cs) =
     (if isSpace c then CHR ''-'' # spacesToHyphens (dropWhile isSpace cs)
      else c # spacesToHyphens cs)"
  by pat_completeness auto
termination
  by (relation "measure length") (auto simp: le_imp_less_Suc length_dropWhile_le)

text \<open>\<open>String.prototype.trim\<close>\<close>

definition trim :: "string \<Rightarrow> string" where
  "trim s = rev (dropWhile isSpace (rev (dropWhile isSpace s)))"

text \<open>
  \<open>findSub pat s\<close> is the text before and after the first occurrence of \<open>pat\<close> in \<open>s\<close>
  (\<open>indexOf\<close>), and \<open>strIncludes\<close> is \<open>String.prototype.includes\<close>.
\<close>

fun findSub :: "string \<Rightarrow> string \<Rightarrow> (string \<times> string) option" where
  "findSub pat [] = (if pat = [] then Some ([], []) else None)"
| "findSub pat (c # cs) =
     (if take (length pat) (c # cs) = pat then Some ([], drop (length pat) (c # cs))
      else (case findSub pat cs of
              None \<Rightarrow> None
            | Some (before, after) \<Rightarrow> Some (c # before, after)))"

definition strIncludes :: "string \<Rightarrow> string \<Rightarrow> bool" where
  "strIncludes s pat = (findSub pat s \<noteq> None)"

text \<open>\<open>s.split(sep)\<close> for a separator of one character.\<close>

fun splitOn :: "char \<Rightarrow> string \<Rightarrow> string list" where
  "splitOn sep [] = [[]]"
| "splitOn sep (c # cs) =
     (if c = sep then [] # splitOn sep cs
      else (case splitOn sep cs of
              [] \<Rightarrow> [[c]]
            | l # ls \<Rightarrow> (c # l) # ls))"

section \<open>Tag helpers of the sync manager\<close>

subsection \<open>parseFrontmatterTags\<close>

text \<open>
  \<open>content.match(/^---\n([\s\S]*?)\n---/)\<close>: the content starts with \<open>---\n\<close>, and the
  lazy group ends at the first \<open>\n---\<close> after it.
\<close>

definition frontmatterBlock :: "string \<Rightarrow> string option" where
  "frontmatterBlock content =
     (if take 4 content = ''---'' @ [NL]
      then (case findSub (NL # ''---'') (drop 4 content) of
              None \<Rightarrow> None
            | Some (fm, _) \<Rightarrow> Some fm)
      else None)"

text \<open>
  One iteration \<open>\s*-\s*.+\<close> of the tag-list pattern (also the pattern of one line,
  \<open>/^\s*-\s*(.+)/\<close>): leading white space, a hyphen, white space, and at least one
  character that is not a line terminator. The result is the text matched by \<open>.+\<close> and
  the text after it. When only white space follows the hyphen, the greedy \<open>\s*\<close> gives
  characters back until \<open>.+\<close> can match one of them.
\<close>

definition dashItem :: "string \<Rightarrow> (string \<times> string) option" where
  "dashItem s =
     (case dropWhile isSpace s of
        [] \<Rightarrow> None
      | c # s2 \<Rightarrow>
          if c \<noteq> CHR ''-'' then None
          else (let w = takeWhile isSpace s2; s3 = dropWhile isSpace s2 in
                if s3 \<noteq> [] then Some (takeWhile notLineTerminator s3, dropWhile notLineTerminator s3)
                else (case dropWhile isLineTerminator (rev w) of
                        [] \<Rightarrow> None
                      | d # _ \<Rightarrow> Some ([d], rev (takeWhile isLineTerminator (rev w))))))"

lemma dashItem_shorter:
  "dashItem s = Some (m, rest) \<Longrightarrow> length rest < length s"
proof -
  assume a: "dashItem s = Some (m, rest)"
  have drop_le: "\<And>P (xs::string). length (dropWhile P xs) \<le> length xs"
    by (rule length_dropWhile_le)
  have take_le: "\<And>P (xs::string). length (takeWhile P xs) \<le> length xs"
    by (rule length_takeWhile_le)
  from a obtain c s2 where ds: "dropWhile isSpace s = c # s2" and c: "c = CHR ''-''"
    by (auto simp: dashItem_def split: list.splits if_splits)
  have s2: "length s2 < length s"
    using drop_le [of isSpace s] ds by simp
  show ?thesis
  proof (cases "dropWhile isSpace s2 = []")
    case False
    with a ds c have "rest = dropWhile notLineTerminator (dropWhile isSpace s2)"
      by (simp add: dashItem_def Let_def)
    then have "length rest \<le> length s2"
      using drop_le [of notLineTerminator "dropWhile isSpace s2"] drop_le [of isSpace s2] by simp
    with s2 show ?thesis by simp
  next
    case True
    with a ds c have "rest = rev (takeWhile isLineTerminator (rev (takeWhile isSpace s2)))"
      by (auto simp: dashItem_def Let_def split: list.splits)
    then have "length rest \<le> length s2"
      using take_le [of isLineTerminator "rev (takeWhile isSpace s2)"] take_le [of isSpace s2]
      by simp
    with s2 show ?thesis by simp
  qed
qed

text \<open>
  The greedy group \<open>((?:\s*-\s*.+\n?)*)\<close>: the iterations are matched one after the
  other, each followed by one optional line feed; the group is the text they consumed.
\<close>

definition optionalNL :: "string \<Rightarrow> string" where
  "optionalNL s = (case s of [] \<Rightarrow> [] | c # cs \<Rightarrow> if c = NL then cs else c # cs)"

lemma optionalNL_le: "length (optionalNL s) \<le> length s"
  by (cases s) (auto simp: optionalNL_def)

function tagsGroup :: "string \<Rightarrow> string" where
  "tagsGroup s =
     (case dashItem s of
        None \<Rightarrow> []
      | Some (m, rest) \<Rightarrow>
          take (length s - length (optionalNL rest)) s @ tagsGroup (optionalNL rest))"
  by pat_completeness auto
termination
proof (relation "measure length")
  show "wf (measure length)" by simp
next
  fix s :: string and x2 :: "string \<times> string" and m rest
  assume "dashItem s = Some x2" and "(m, rest) = x2"
  then have "length rest < length s"
    using dashItem_shorter [of s m rest] by simp
  then show "(optionalNL rest, s) \<in> measure length"
    using optionalNL_le [of rest] by simp
qed

text \<open>
  \<open>fm.match(/^tags:\s*\n((?:\s*-\s*.+\n?)*)/m)\<close> tried at one line start: \<open>tags:\<close>, then
  the greedy \<open>\s*\<close> backs off to the last line feed of the white space that follows, and
  the group starts right after that line feed.
\<close>

definition tagsAtLineStart :: "string \<Rightarrow> string option" where
  "tagsAtLineStart s =
     (if take 5 s = ''tags:''
      then (let w = takeWhile isSpace (drop 5 s); after = dropWhile isSpace (drop 5 s) in
            if NL \<in> set w
            then Some (tagsGroup (rev (takeWhile (\<lambda>c. c \<noteq> NL) (rev w)) @ after))
            else None)
      else None)"

text \<open>The first line start (with the \<open>m\<close> flag) at which the pattern matches.\<close>

fun tagsSection :: "bool \<Rightarrow> string \<Rightarrow> string option" where
  "tagsSection atStart [] = None"
| "tagsSection atStart (c # cs) =
     (case (if atStart then tagsAtLineStart (c # cs) else None) of
        Some g \<Rightarrow> Some g
      | None \<Rightarrow> tagsSection (isLineTerminator c) cs)"

definition parseFrontmatterTags :: "string \<Rightarrow> string list" where
  "parseFrontmatterTags content =
     (case frontmatterBlock content of
        None \<Rightarrow> []
      | Some fm \<Rightarrow>
          (case tagsSection True fm of
             None \<Rightarrow> []
           | Some g \<Rightarrow>
               concat (map (\<lambda>line. case dashItem line of
                                      None \<Rightarrow> []
                                    | Some (m, _) \<Rightarrow> [trim m])
                           (splitOn NL g))))"

subsection \<open>normalizeTag and tagsEqual\<close>

definition normalizeTag :: "string \<Rightarrow> string" where
  "normalizeTag t = toLowerCase (hyphensToSpaces t)"

text \<open>
  \<open>tagsEqual\<close>: equal lengths, and the sorted normalized lists agree at every index.
\<close>

definition tagsEqual :: "string list \<Rightarrow> string list \<Rightarrow> bool" where
  "tagsEqual a b =
     (if length a \<noteq> length b then False
      else sort (map normalizeTag a) = sort (map normalizeTag b))"

section \<open>Data model\<close>

text \<open>
  A Zotero item as the engine reads it: \<open>tags\<close> is \<open>(item.data.tags || []).map(t => t.tag)\<close>,
  \<open>itemType\<close> is \<open>item.data.itemType\<close>.
\<close>

record ZoteroItem =
  key :: string
  version :: int
  itemType :: string
  tags :: "string list"

record SyncResult =
  created :: nat
  updated :: nat
  skipped :: nat
  errors :: "string list"

text \<open>What \<open>vault.getAbstractFileByPath\<close> finds at a path: a file with its text, or a folder.\<close>

datatype AbstractFile = TFile string | TFolder

type_synonym Vault = "string \<rightharpoonup> AbstractFile"

text \<open>
  The state the sync manager works on: its \<open>isSyncing\<close> flag, the settings object it
  shares with the version tracker (\<open>zoteroCacheDir\<close> is \<open>zoteroCacheDirs[hostname]\<close>),
  the vault, and the PATCH requests sent to Zotero so far (item key, tags, version).
\<close>

record SyncState =
  isSyncing :: bool
  userId :: string
  syncTag :: string
  outputFolder :: string
  preserveUserContent :: bool
  zoteroCacheDir :: "string option"
  lastSyncVersion :: int
  itemVersions :: "string \<rightharpoonup> int"
  itemFilenames :: "string \<rightharpoonup> string"
  lastSyncedTags :: "string \<rightharpoonup> string list"
  vault :: Vault
  patchRequests :: "(string \<times> string list \<times> int) list"

text \<open>
  The collaborators of the sync manager. A \<open>string option\<close> or the \<open>Inl\<close> of a sum is
  the message of the error the call throws. \<open>patchItemTags\<close> catches every error and
  returns a boolean. \<open>imageAnnotations\<close> lists, for the image annotations of an item
  whose position parses, the normalized image path and the image data found (Web API,
  then the local cache).
\<close>

record Env =
  saveSettings :: "SyncState \<Rightarrow> string option"
  fetchCollections :: "string option"
  fetchItemsByTag :: "string \<Rightarrow> int option \<Rightarrow> string + (ZoteroItem list \<times> int)"
  fetchItem :: "string \<Rightarrow> ZoteroItem option"
  fetchItemChildren :: "ZoteroItem \<Rightarrow> string option"
  imageAnnotations :: "ZoteroItem \<Rightarrow> (string \<times> string option) list"
  patchItemTags :: "string \<Rightarrow> string list \<Rightarrow> int \<Rightarrow> bool"
  generateFilename :: "ZoteroItem \<Rightarrow> string"
  normalizePath :: "string \<Rightarrow> string"
  renderContent :: "ZoteroItem \<Rightarrow> string \<Rightarrow> string list \<Rightarrow> Vault \<Rightarrow> string + string"
  renderWithPreservedComments :: "string \<Rightarrow> string \<Rightarrow> string"
  vaultCreate :: "string \<Rightarrow> string \<Rightarrow> string option"
  vaultModify :: "string \<Rightarrow> string \<Rightarrow> string option"
  vaultCreateBinary :: "string \<Rightarrow> string option"
  vaultCreateFolder :: "string \<Rightarrow> string option"

section \<open>Version tracker\<close>

definition getLibraryVersion :: "SyncState \<Rightarrow> int" where
  "getLibraryVersion st = lastSyncVersion st"

definition setLibraryVersion :: "Env \<Rightarrow> int \<Rightarrow> SyncState \<Rightarrow> string option \<times> SyncState" where
  "setLibraryVersion env v st =
     (let st1 = st\<lparr>lastSyncVersion := v\<rparr> in (saveSettings env st1, st1))"

definition isItemChanged :: "SyncState \<Rightarrow> string \<Rightarrow> int \<Rightarrow> bool" where
  "isItemChanged st itemKey newVersion =
     (case itemVersions st itemKey of
        None \<Rightarrow> True
      | Some stored \<Rightarrow> stored < newVersion)"

definition setItemVersion :: "Env \<Rightarrow> string \<Rightarrow> int \<Rightarrow> SyncState \<Rightarrow> string option \<times> SyncState" where
  "setItemVersion env itemKey v st =
     (let st1 = st\<lparr>itemVersions := (itemVersions st)(itemKey \<mapsto> v)\<rparr> in (saveSettings env st1, st1))"

section \<open>Two-way tag merge\<close>

definition zoteroTagsOf :: "SyncState \<Rightarrow> ZoteroItem \<Rightarrow> string list" where
  "zoteroTagsOf st item = filter (\<lambda>t. t \<noteq> syncTag st) (tags item)"

text \<open>
  First sync of an item: the loop over \<open>zoteroTags\<close> that pushes onto \<open>merged\<close> and adds to
  \<open>fmNormSet\<close>.
\<close>

fun firstSyncLoop :: "string list \<Rightarrow> string list \<Rightarrow> string set \<Rightarrow> string list" where
  "firstSyncLoop [] merged fmNormSet = merged"
| "firstSyncLoop (zt # zts) merged fmNormSet =
     (if normalizeTag zt \<notin> fmNormSet
      then firstSyncLoop zts (merged @ [spacesToHyphens zt]) (insert (normalizeTag zt) fmNormSet)
      else firstSyncLoop zts merged fmNormSet)"

text \<open>Normal merge: the normalized tags of \<open>lastSynced\<close> that Zotero no longer has.\<close>

definition removedInZotero :: "string list \<Rightarrow> string list \<Rightarrow> string set" where
  "removedInZotero lastSynced zoteroTags =
     set (filter (\<lambda>norm. norm \<notin> set (map normalizeTag zoteroTags)) (map normalizeTag lastSynced))"

text \<open>Normal merge: the loop that adds the tags new in Zotero since the last sync.\<close>

fun normalMergeLoop :: "string set \<Rightarrow> string list \<Rightarrow> string list \<Rightarrow> string set \<Rightarrow> string list" where
  "normalMergeLoop lastSyncedNormSet [] merged mergedNormSet = merged"
| "normalMergeLoop lastSyncedNormSet (zt # zts) merged mergedNormSet =
     (if normalizeTag zt \<notin> lastSyncedNormSet \<and> normalizeTag zt \<notin> mergedNormSet
      then normalMergeLoop lastSyncedNormSet zts (merged @ [spacesToHyphens zt])
             (insert (normalizeTag zt) mergedNormSet)
      else normalMergeLoop lastSyncedNormSet zts merged mergedNormSet)"

text \<open>
  \<open>pushTagsToZotero\<close>: nothing is sent when \<open>tagsEqual\<close> holds. Otherwise
  \<open>patchItemTags\<close> is called with the merged tags (hyphens replaced by spaces) and the
  sync tag; its boolean answer is discarded, so the model records the request.
\<close>

definition pushTagsToZotero ::
  "ZoteroItem \<Rightarrow> string list \<Rightarrow> string \<Rightarrow> string list \<Rightarrow> SyncState \<Rightarrow> SyncState" where
  "pushTagsToZotero item merged sTag zoteroTags st =
     (if tagsEqual merged zoteroTags then st
      else st\<lparr>patchRequests :=
                patchRequests st @ [(key item, map hyphensToSpaces merged @ [sTag], version item)]\<rparr>)"

text \<open>\<open>lastSyncedTags[item.key] = value; await saveSettings(); return result\<close>\<close>

definition storeLastSyncedTags ::
  "Env \<Rightarrow> ZoteroItem \<Rightarrow> string list \<Rightarrow> string list \<Rightarrow> SyncState \<Rightarrow> (string + string list) \<times> SyncState" where
  "storeLastSyncedTags env item stored returned st =
     (let st1 = st\<lparr>lastSyncedTags := (lastSyncedTags st)(key item \<mapsto> stored)\<rparr> in
      case saveSettings env st1 of
        Some e \<Rightarrow> (Inl e, st1)
      | None \<Rightarrow> (Inr returned, st1))"

definition firstSyncMerge :: "string list \<Rightarrow> string list \<Rightarrow> string list" where
  "firstSyncMerge fmTags zoteroTags =
     firstSyncLoop zoteroTags fmTags (set (map normalizeTag fmTags))"

definition normalMerge :: "string list \<Rightarrow> string list \<Rightarrow> string list \<Rightarrow> string list" where
  "normalMerge fmTags zoteroTags lastSynced =
     (let merged = filter (\<lambda>t. normalizeTag t \<notin> removedInZotero lastSynced zoteroTags) fmTags in
      normalMergeLoop (set (map normalizeTag lastSynced)) zoteroTags merged
        (set (map normalizeTag merged)))"

text \<open>
  \<open>syncTagsTwoWay\<close>. \<open>!existingContent\<close> holds for \<open>null\<close> and for the empty string;
  \<open>!lastSynced\<close> holds only when the item has no entry (an empty array is truthy).
\<close>

definition syncTagsTwoWay ::
  "Env \<Rightarrow> SyncState \<Rightarrow> ZoteroItem \<Rightarrow> string option \<Rightarrow> (string + string list) \<times> SyncState" where
  "syncTagsTwoWay env st item existingContent =
     (let zoteroTags = zoteroTagsOf st item in
      if existingContent = None \<or> existingContent = Some []
      then storeLastSyncedTags env item (map spacesToHyphens zoteroTags) zoteroTags st
      else (let fmTags = parseFrontmatterTags (the existingContent) in
            case lastSyncedTags st (key item) of
              None \<Rightarrow>
                (let merged = firstSyncMerge fmTags zoteroTags in
                 storeLastSyncedTags env item merged merged
                   (pushTagsToZotero item merged (syncTag st) zoteroTags st))
            | Some lastSynced \<Rightarrow>
                (let merged = normalMerge fmTags zoteroTags lastSynced in
                 storeLastSyncedTags env item merged merged
                   (pushTagsToZotero item merged (syncTag st) zoteroTags st))))"

section \<open>Sync manager\<close>

subsection \<open>Folders and annotation images\<close>

text \<open>\<open>ensureFolder\<close>: the folder is created when nothing is found at its path.\<close>

definition ensureFolder :: "Env \<Rightarrow> string \<Rightarrow> Vault \<Rightarrow> string option \<times> Vault" where
  "ensureFolder env folderPath v =
     (let normalized = normalizePath env folderPath in
      case v normalized of
        Some existing \<Rightarrow> (None, v)
      | None \<Rightarrow>
          (case vaultCreateFolder env normalized of
             Some e \<Rightarrow> (Some e, v)
           | None \<Rightarrow> (None, v(normalized \<mapsto> TFolder))))"

text \<open>
  \<open>ensureFolderRecursive\<close>: the paths \<open>current\<close> takes while the parts are joined, and
  the loop that creates each level at which nothing is found.
\<close>

fun folderLevels :: "string \<Rightarrow> string list \<Rightarrow> string list" where
  "folderLevels current [] = []"
| "folderLevels current (part # parts) =
     (let cur = (if current \<noteq> [] then current @ ''/'' @ part else part) in
      cur # folderLevels cur parts)"

fun createLevels :: "Env \<Rightarrow> string list \<Rightarrow> Vault \<Rightarrow> string option \<times> Vault" where
  "createLevels env [] v = (None, v)"
| "createLevels env (current # rest) v =
     (case v current of
        Some folder \<Rightarrow> createLevels env rest v
      | None \<Rightarrow>
          (case vaultCreateFolder env current of
             Some e \<Rightarrow> (Some e, v)
           | None \<Rightarrow> createLevels env rest (v(current \<mapsto> TFolder))))"

definition ensureFolderRecursive :: "Env \<Rightarrow> string \<Rightarrow> Vault \<Rightarrow> string option \<times> Vault" where
  "ensureFolderRecursive env folderPath v =
     (let normalized = normalizePath env folderPath in
      if v normalized = Some TFolder then (None, v)
      else createLevels env (folderLevels [] (splitOn CHR ''/'' normalized)) v)"

text \<open>\<open>normalizedPath.substring(0, normalizedPath.lastIndexOf('/'))\<close>\<close>

definition parentFolder :: "string \<Rightarrow> string" where
  "parentFolder p = rev (drop 1 (dropWhile (\<lambda>c. c \<noteq> CHR ''/'') (rev p)))"

definition isTFile :: "AbstractFile option \<Rightarrow> bool" where
  "isTFile f = (case f of Some (TFile c) \<Rightarrow> True | _ \<Rightarrow> False)"

text \<open>
  \<open>processImageAnnotations\<close>: an image already in the vault is kept; otherwise, when image
  data was found, its folder is ensured and the image is created. An error of one
  annotation is caught and the loop goes on.
\<close>

fun processImageAnnotations :: "Env \<Rightarrow> (string \<times> string option) list \<Rightarrow> Vault \<Rightarrow> Vault" where
  "processImageAnnotations env [] v = v"
| "processImageAnnotations env ((normalizedPath, imageData) # rest) v =
     (if isTFile (v normalizedPath) then processImageAnnotations env rest v
      else (case imageData of
              None \<Rightarrow> processImageAnnotations env rest v
            | Some bytes \<Rightarrow>
                (case ensureFolderRecursive env (parentFolder normalizedPath) v of
                   (Some e, v1) \<Rightarrow> processImageAnnotations env rest v1
                 | (None, v1) \<Rightarrow>
                     (case vaultCreateBinary env normalizedPath of
                        Some e \<Rightarrow> processImageAnnotations env rest v1
                      | None \<Rightarrow> processImageAnnotations env rest (v1(normalizedPath \<mapsto> TFile bytes))))))"

text \<open>
  \<open>buildSyncData\<close>: fetching the children and annotations may throw; the bibliography
  and the images are fetched with their errors caught. The data itself goes to the
  renderer, which the model takes from \<open>Env\<close>.
\<close>

definition buildSyncData :: "Env \<Rightarrow> ZoteroItem \<Rightarrow> SyncState \<Rightarrow> string option \<times> SyncState" where
  "buildSyncData env item st =
     (case fetchItemChildren env item of
        Some e \<Rightarrow> (Some e, st)
      | None \<Rightarrow>
          (None, st\<lparr>vault := processImageAnnotations env (imageAnnotations env item) (vault st)\<rparr>))"

subsection \<open>Side conditions of the skip decision\<close>

definition hasLocalCache :: "SyncState \<Rightarrow> bool" where
  "hasLocalCache st = (case zoteroCacheDir st of None \<Rightarrow> False | Some dir \<Rightarrow> dir \<noteq> [])"

definition hasMissingImageAnnotations :: "SyncState \<Rightarrow> string \<Rightarrow> bool" where
  "hasMissingImageAnnotations st content =
     (if \<not> hasLocalCache st then False else strIncludes content ''[Area highlight'')"

definition hasLocalTagChanges :: "SyncState \<Rightarrow> string \<Rightarrow> string \<Rightarrow> bool" where
  "hasLocalTagChanges st content itemKey =
     (case lastSyncedTags st itemKey of
        None \<Rightarrow> False
      | Some lastSynced \<Rightarrow> \<not> tagsEqual (parseFrontmatterTags content) lastSynced)"

text \<open>
  The test of \<open>syncAll\<close> that ends in \<open>result.skipped++; continue\<close>: the version is
  unchanged and the file exists, and neither side condition holds.
\<close>

definition shouldSkip :: "SyncState \<Rightarrow> ZoteroItem \<Rightarrow> AbstractFile option \<Rightarrow> bool" where
  "shouldSkip st item existingFile =
     (case existingFile of
        Some (TFile content) \<Rightarrow>
          if \<not> isItemChanged st (key item) (version item)
          then \<not> hasMissingImageAnnotations st content \<and> \<not> hasLocalTagChanges st content (key item)
          else False
      | _ \<Rightarrow> False)"

subsection \<open>Processing one item\<close>

text \<open>The stored filename of the item, or a generated one, stored and saved.\<close>

definition resolveFilename ::
  "Env \<Rightarrow> string \<Rightarrow> ZoteroItem \<Rightarrow> SyncState \<Rightarrow> (string + string) \<times> SyncState" where
  "resolveFilename env itemKey item st =
     (if itemFilenames st itemKey \<noteq> None \<and> itemFilenames st itemKey \<noteq> Some []
      then (Inr (the (itemFilenames st itemKey)), st)
      else (let filename = generateFilename env item;
                st1 = st\<lparr>itemFilenames := (itemFilenames st)(itemKey \<mapsto> filename)\<rparr> in
            case saveSettings env st1 of
              Some e \<Rightarrow> (Inl e, st1)
            | None \<Rightarrow> (Inr filename, st1)))"

definition filePathOf :: "Env \<Rightarrow> SyncState \<Rightarrow> string \<Rightarrow> string" where
  "filePathOf env st filename = normalizePath env (outputFolder st @ ''/'' @ filename @ ''.md'')"

text \<open>
  The part \<open>syncAll\<close> and \<open>syncSingleItem\<close> share: the tag merge, the rendering, the
  write (modify an existing file, create a new one) and the version update. The result
  is the message of the error thrown, if any, with the counters and the state reached.
\<close>

definition reconcileAndWrite ::
  "Env \<Rightarrow> ZoteroItem \<Rightarrow> string \<Rightarrow> string \<Rightarrow> AbstractFile option \<Rightarrow> SyncResult \<Rightarrow> SyncState
     \<Rightarrow> string option \<times> SyncResult \<times> SyncState" where
  "reconcileAndWrite env item filename filePath existingFile res st =
     (let existingContent = (case existingFile of Some (TFile c) \<Rightarrow> Some c | _ \<Rightarrow> None) in
      case syncTagsTwoWay env st item existingContent of
        (Inl e, st1) \<Rightarrow> (Some e, res, st1)
      | (Inr mergedTags, st1) \<Rightarrow>
          (case renderContent env item filename mergedTags (vault st1) of
             Inl e \<Rightarrow> (Some e, res, st1)
           | Inr content \<Rightarrow>
               (case existingContent of
                  Some old \<Rightarrow>
                    (let newText = (if preserveUserContent st1
                                 then renderWithPreservedComments env old content else content) in
                     case vaultModify env filePath newText of
                       Some e \<Rightarrow> (Some e, res, st1)
                     | None \<Rightarrow>
                         (case setItemVersion env (key item) (version item)
                                 (st1\<lparr>vault := (vault st1)(filePath \<mapsto> TFile newText)\<rparr>) of
                            (thrown, st2) \<Rightarrow> (thrown, res\<lparr>updated := updated res + 1\<rparr>, st2)))
                | None \<Rightarrow>
                    (case vaultCreate env filePath content of
                       Some e \<Rightarrow> (Some e, res, st1)
                     | None \<Rightarrow>
                         (case setItemVersion env (key item) (version item)
                                 (st1\<lparr>vault := (vault st1)(filePath \<mapsto> TFile content)\<rparr>) of
                            (thrown, st2) \<Rightarrow> (thrown, res\<lparr>created := created res + 1\<rparr>, st2))))))"

text \<open>The body of the \<open>try\<close> block of one loop iteration of \<open>syncAll\<close>.\<close>

definition processItemBody ::
  "Env \<Rightarrow> ZoteroItem \<Rightarrow> SyncResult \<Rightarrow> SyncState \<Rightarrow> string option \<times> SyncResult \<times> SyncState" where
  "processItemBody env item res st =
     (case resolveFilename env (key item) item st of
        (Inl e, st1) \<Rightarrow> (Some e, res, st1)
      | (Inr filename, st1) \<Rightarrow>
          (let filePath = filePathOf env st1 filename;
               existingFile = vault st1 filePath in
           if shouldSkip st1 item existingFile
           then (None, res\<lparr>skipped := skipped res + 1\<rparr>, st1)
           else (case buildSyncData env item st1 of
                   (Some e, st2) \<Rightarrow> (Some e, res, st2)
                 | (None, st2) \<Rightarrow> reconcileAndWrite env item filename filePath existingFile res st2)))"

text \<open>
  One loop iteration with its \<open>catch\<close>: the error is recorded under the item's key.
  The progress callback only reports \<open>(processed, total)\<close> and is left out.
\<close>

definition processItem :: "Env \<Rightarrow> ZoteroItem \<Rightarrow> SyncResult \<times> SyncState \<Rightarrow> SyncResult \<times> SyncState" where
  "processItem env item rs =
     (case processItemBody env item (fst rs) (snd rs) of
        (Some e, res, st) \<Rightarrow>
          (res\<lparr>errors := errors res @ [''Error processing item '' @ key item @ '': '' @ e]\<rparr>, st)
      | (None, res, st) \<Rightarrow> (res, st))"

fun processItems :: "Env \<Rightarrow> ZoteroItem list \<Rightarrow> SyncResult \<times> SyncState \<Rightarrow> SyncResult \<times> SyncState" where
  "processItems env [] rs = rs"
| "processItems env (item # rest) rs = processItems env rest (processItem env item rs)"

subsection \<open>syncAll\<close>

definition emptyResult :: SyncResult where
  "emptyResult = \<lparr>created = 0, updated = 0, skipped = 0, errors = []\<rparr>"

definition alreadyInProgress :: SyncResult where
  "alreadyInProgress = \<lparr>created = 0, updated = 0, skipped = 0, errors = [''Sync already in progress'']\<rparr>"

definition isTopLevel :: "ZoteroItem \<Rightarrow> bool" where
  "isTopLevel item =
     (itemType item \<noteq> ''attachment'' \<and> itemType item \<noteq> ''note'' \<and> itemType item \<noteq> ''annotation'')"

text \<open>The \<open>try\<close> block of \<open>syncAll\<close>; the first component is the error it throws.\<close>

definition syncAllBody :: "Env \<Rightarrow> SyncResult \<Rightarrow> SyncState \<Rightarrow> string option \<times> SyncResult \<times> SyncState" where
  "syncAllBody env res st =
     (if userId st = [] then (Some ''User ID is required. Configure it in settings.'', res, st)
      else (case fetchCollections env of
              Some e \<Rightarrow> (Some e, res, st)
            | None \<Rightarrow>
                (let sinceVersion = getLibraryVersion st in
                 case fetchItemsByTag env (syncTag st) (if sinceVersion > 0 then Some sinceVersion else None) of
                   Inl e \<Rightarrow> (Some e, res, st)
                 | Inr (items, libraryVersion) \<Rightarrow>
                     if items = [] \<and> sinceVersion > 0 then (None, res, st)
                     else (case ensureFolder env (outputFolder st) (vault st) of
                             (Some e, v1) \<Rightarrow> (Some e, res, st\<lparr>vault := v1\<rparr>)
                           | (None, v1) \<Rightarrow>
                               (case processItems env (filter isTopLevel items) (res, st\<lparr>vault := v1\<rparr>) of
                                  (res1, st1) \<Rightarrow>
                                    if libraryVersion > 0
                                    then (case setLibraryVersion env libraryVersion st1 of
                                            (thrown, st2) \<Rightarrow> (thrown, res1, st2))
                                    else (None, res1, st1))))))"

text \<open>
  \<open>syncAll\<close>: the single-flight guard, then the \<open>try\<close> block with its \<open>catch\<close> (the
  error goes to the result as \<open>Sync failed: ...\<close>) and its \<open>finally\<close>.
\<close>

definition syncAll :: "Env \<Rightarrow> SyncState \<Rightarrow> SyncResult \<times> SyncState" where
  "syncAll env st =
     (if isSyncing st then (alreadyInProgress, st)
      else (case syncAllBody env emptyResult (st\<lparr>isSyncing := True\<rparr>) of
              (Some e, res, st1) \<Rightarrow>
                (res\<lparr>errors := errors res @ [''Sync failed: '' @ e]\<rparr>, st1\<lparr>isSyncing := False\<rparr>)
            | (None, res, st1) \<Rightarrow> (res, st1\<lparr>isSyncing := False\<rparr>)))"

subsection \<open>syncSingleItem\<close>

definition syncSingleItemBody ::
  "Env \<Rightarrow> string \<Rightarrow> SyncResult \<Rightarrow> SyncState \<Rightarrow> string option \<times> SyncResult \<times> SyncState" where
  "syncSingleItemBody env itemKey res st =
     (if userId st = [] then (Some ''User ID is required.'', res, st)
      else (case fetchCollections env of
              Some e \<Rightarrow> (Some e, res, st)
            | None \<Rightarrow>
                (case fetchItem env itemKey of
                   None \<Rightarrow> (None, res\<lparr>errors := errors res @ [''Item '' @ itemKey @ '' not found in Zotero.'']\<rparr>, st)
                 | Some item \<Rightarrow>
                     (case ensureFolder env (outputFolder st) (vault st) of
                        (Some e, v1) \<Rightarrow> (Some e, res, st\<lparr>vault := v1\<rparr>)
                      | (None, v1) \<Rightarrow>
                          (case resolveFilename env itemKey item (st\<lparr>vault := v1\<rparr>) of
                             (Inl e, st1) \<Rightarrow> (Some e, res, st1)
                           | (Inr filename, st1) \<Rightarrow>
                               (case buildSyncData env item st1 of
                                  (Some e, st2) \<Rightarrow> (Some e, res, st2)
                                | (None, st2) \<Rightarrow>
                                    (let filePath = filePathOf env st2 filename in
                                     reconcileAndWrite env item filename filePath
                                       (vault st2 filePath) res st2)))))))"

definition syncSingleItem :: "Env \<Rightarrow> string \<Rightarrow> SyncState \<Rightarrow> SyncResult \<times> SyncState" where
  "syncSingleItem env itemKey st =
     (if isSyncing st then (alreadyInProgress, st)
      else (case syncSingleItemBody env itemKey emptyResult (st\<lparr>isSyncing := True\<rparr>) of
              (Some e, res, st1) \<Rightarrow>
                (res\<lparr>errors := errors res @ [''Sync failed: '' @ e]\<rparr>, st1\<lparr>isSyncing := False\<rparr>)
            | (None, res, st1) \<Rightarrow> (res, st1\<lparr>isSyncing := False\<rparr>)))"

section \<open>Relations between the state before and after a step\<close>

text \<open>
  \<open>vaultExtends v v'\<close>: every file of \<open>v\<close> is still a file in \<open>v'\<close>, and every path of
  \<open>v\<close> is still taken. \<open>framed st st'\<close>: the step from \<open>st\<close> to \<open>st'\<close> left the
  configuration, the \<open>isSyncing\<close> flag and the library version alone and extended the
  vault.
\<close>

definition vaultExtends :: "Vault \<Rightarrow> Vault \<Rightarrow> bool" where
  "vaultExtends v v' = (\<forall>p. (isTFile (v p) \<longrightarrow> isTFile (v' p)) \<and> (v p \<noteq> None \<longrightarrow> v' p \<noteq> None))"

definition framed :: "SyncState \<Rightarrow> SyncState \<Rightarrow> bool" where
  "framed st st' =
     (userId st' = userId st \<and> syncTag st' = syncTag st \<and> outputFolder st' = outputFolder st \<and>
      preserveUserContent st' = preserveUserContent st \<and> zoteroCacheDir st' = zoteroCacheDir st \<and>
      isSyncing st' = isSyncing st \<and> lastSyncVersion st' = lastSyncVersion st \<and>
      vaultExtends (vault st) (vault st'))"

text \<open>The records a result accounts for: created, updated, skipped or failed.\<close>

definition attempts :: "SyncResult \<Rightarrow> nat" where
  "attempts res = created res + updated res + skipped res + length (errors res)"

section \<open>A small library, vault and environment for the concrete runs\<close>

text \<open>
  A note as the built-in renderer lays out its frontmatter: the \<open>tags: \<close> block with
  one \<open>- tag\<close> line per tag (white space replaced by hyphens), then other keys.
\<close>

definition exampleNote :: "string list \<Rightarrow> string" where
  "exampleNote ts =
     ''---'' @ [NL] @ ''title: T'' @ [NL]
       @ (if ts = [] then []
          else ''tags: '' @ [NL] @ concat (map (\<lambda>t. ''- '' @ spacesToHyphens t @ [NL]) ts))
       @ ''zotero-key: K'' @ [NL] @ ''---'' @ [NL] @ ''## Comments'' @ [NL]"

text \<open>The item \<open>K\<close> with the given tags and the sync tag \<open>obsidian\<close>.\<close>

definition exampleItem :: "string list \<Rightarrow> int \<Rightarrow> ZoteroItem" where
  "exampleItem ts v =
     \<lparr>key = ''K'', version = v, itemType = ''journalArticle'', tags = ts @ [''obsidian'']\<rparr>"

text \<open>
  An environment in which the library holds \<open>items\<close> at \<open>libraryVersion\<close>: an
  incremental fetch returns the items newer than \<open>since\<close>, and the remote rejects every
  tag push. \<open>failing\<close> is the set of paths at which a vault write throws.
\<close>

definition exampleEnv :: "ZoteroItem list \<Rightarrow> int \<Rightarrow> string list \<Rightarrow> Env" where
  "exampleEnv items libraryVersion failing =
     \<lparr>saveSettings = (\<lambda>st. None),
      fetchCollections = None,
      fetchItemsByTag =
        (\<lambda>tag since. Inr (case since of
                              None \<Rightarrow> items
                            | Some v \<Rightarrow> filter (\<lambda>i. v < version i) items, libraryVersion)),
      fetchItem = (\<lambda>k. find (\<lambda>i. key i = k) items),
      fetchItemChildren = (\<lambda>item. None),
      imageAnnotations = (\<lambda>item. []),
      patchItemTags = (\<lambda>k ts v. False),
      generateFilename = (\<lambda>item. key item),
      normalizePath = (\<lambda>p. p),
      renderContent = (\<lambda>item filename mergedTags v. Inr (exampleNote mergedTags)),
      renderWithPreservedComments = (\<lambda>old new. new),
      vaultCreate = (\<lambda>p c. if p \<in> set failing then Some ''write failed'' else None),
      vaultModify = (\<lambda>p c. if p \<in> set failing then Some ''write failed'' else None),
      vaultCreateBinary = (\<lambda>p. None),
      vaultCreateFolder = (\<lambda>p. None)\<rparr>"

definition exampleState :: "(string \<rightharpoonup> int) \<Rightarrow> (string \<rightharpoonup> string list) \<Rightarrow> Vault \<Rightarrow> SyncState" where
  "exampleState versions baseline v =
     \<lparr>isSyncing = False, userId = ''42'', syncTag = ''obsidian'', outputFolder = ''Notes'',
      preserveUserContent = True, zoteroCacheDir = None, lastSyncVersion = 0,
      itemVersions = versions, itemFilenames = [''K'' \<mapsto> ''K''], lastSyncedTags = baseline,
      vault = v, patchRequests = []\<rparr>"

text \<open>
  A vault with the output folder, the note of item \<open>K\<close> with the given tags, and a note
  whose item is no longer in the library.
\<close>

definition exampleVault :: "string list \<Rightarrow> Vault" where
  "exampleVault ts =
     [''Notes'' \<mapsto> TFolder, ''Notes/K.md'' \<mapsto> TFile (exampleNote ts),
      ''Notes/gone.md'' \<mapsto> TFile ''an old note'']"

text \<open>The frontmatter tags of the note at a path of the vault.\<close>

definition noteTags :: "SyncState \<Rightarrow> string \<Rightarrow> string list" where
  "noteTags st p = (case vault st p of Some (TFile c) \<Rightarrow> parseFrontmatterTags c | _ \<Rightarrow> [])"


text \<open>
  The line the renderer writes for an image annotation without an image file:
  \<open>[Image - see PDF]\<close> with a long dash (here its three bytes), then the link to the
  annotation. The second definition is a note that holds such a line.
\<close>

definition imagePlaceholderLine :: "string \<Rightarrow> string" where
  "imagePlaceholderLine annotationLink =
     ''[Image '' @ [CHR 0xE2, CHR 0x80, CHR 0x94] @ '' see PDF] '' @ annotationLink"

definition exampleNoteWithImage :: "string list \<Rightarrow> string \<Rightarrow> string" where
  "exampleNoteWithImage ts imageLine =
     exampleNote ts @ ''### Other annotations'' @ [NL] @ [NL] @ imageLine @ [NL]"

section \<open>Properties of the tag merge\<close>

lemma tagsEqual_mset:
  "tagsEqual a b \<longleftrightarrow> mset (map normalizeTag a) = mset (map normalizeTag b)"
proof
  assume "tagsEqual a b"
  then have "sort (map normalizeTag a) = sort (map normalizeTag b)"
    by (simp add: tagsEqual_def split: if_splits)
  then have "mset (sort (map normalizeTag a)) = mset (sort (map normalizeTag b))"
    by simp
  then show "mset (map normalizeTag a) = mset (map normalizeTag b)"
    by simp
next
  assume m: "mset (map normalizeTag a) = mset (map normalizeTag b)"
  then have "size (mset (map normalizeTag a)) = size (mset (map normalizeTag b))"
    by simp
  then have len: "length a = length b"
    by simp
  have "sort (map normalizeTag a) = sort (map normalizeTag b)"
    using m by (simp add: properties_for_sort)
  with len show "tagsEqual a b"
    by (simp add: tagsEqual_def)
qed


lemma normalMergeLoop_added:
  "\<exists>added. normalMergeLoop L zts merged M = merged @ added \<and>
     (\<forall>zt\<in>set zts. normalizeTag zt \<in> L \<or> normalizeTag zt \<in> M \<or>
        (\<exists>zt'\<in>set zts. normalizeTag zt' = normalizeTag zt \<and> spacesToHyphens zt' \<in> set added)) \<and>
     (\<forall>t\<in>set added. \<exists>zt\<in>set zts. t = spacesToHyphens zt \<and> normalizeTag zt \<notin> L \<and> normalizeTag zt \<notin> M) \<and>
     length added = card (normalizeTag ` set zts - L - M)"
proof (induction zts arbitrary: merged M)
  case Nil
  then show ?case by simp
next
  case (Cons zt zts)
  show ?case
  proof (cases "normalizeTag zt \<notin> L \<and> normalizeTag zt \<notin> M")
    case False
    from Cons.IH [of merged M] obtain added where
      a: "normalMergeLoop L zts merged M = merged @ added"
      and b: "\<forall>z\<in>set zts. normalizeTag z \<in> L \<or> normalizeTag z \<in> M \<or>
        (\<exists>zt'\<in>set zts. normalizeTag zt' = normalizeTag z \<and> spacesToHyphens zt' \<in> set added)"
      and c: "\<forall>t\<in>set added. \<exists>z\<in>set zts. t = spacesToHyphens z \<and> normalizeTag z \<notin> L \<and> normalizeTag z \<notin> M"
      and d: "length added = card (normalizeTag ` set zts - L - M)"
      by blast
    have e: "normalizeTag ` set (zt # zts) - L - M = normalizeTag ` set zts - L - M"
      using False by auto
    have g: "normalMergeLoop L (zt # zts) merged M = merged @ added"
      using False a by auto
    have h: "\<forall>z\<in>set (zt # zts). normalizeTag z \<in> L \<or> normalizeTag z \<in> M \<or>
        (\<exists>zt'\<in>set (zt # zts). normalizeTag zt' = normalizeTag z \<and> spacesToHyphens zt' \<in> set added)"
      using b False by auto
    have i: "\<forall>t\<in>set added. \<exists>z\<in>set (zt # zts). t = spacesToHyphens z \<and> normalizeTag z \<notin> L \<and> normalizeTag z \<notin> M"
      using c by auto
    show ?thesis
      apply (rule exI [of _ added])
      using g h i d e by simp
  next
    case True
    let ?M = "insert (normalizeTag zt) M"
    from Cons.IH [of "merged @ [spacesToHyphens zt]" ?M] obtain added where
      a: "normalMergeLoop L zts (merged @ [spacesToHyphens zt]) ?M = (merged @ [spacesToHyphens zt]) @ added"
      and b: "\<forall>z\<in>set zts. normalizeTag z \<in> L \<or> normalizeTag z \<in> ?M \<or>
        (\<exists>zt'\<in>set zts. normalizeTag zt' = normalizeTag z \<and> spacesToHyphens zt' \<in> set added)"
      and c: "\<forall>t\<in>set added. \<exists>z\<in>set zts. t = spacesToHyphens z \<and> normalizeTag z \<notin> L \<and> normalizeTag z \<notin> ?M"
      and d: "length added = card (normalizeTag ` set zts - L - ?M)"
      by blast
    have e: "normalizeTag ` set (zt # zts) - L - M = insert (normalizeTag zt) (normalizeTag ` set zts - L - ?M)"
      using True by auto
    have f: "card (normalizeTag ` set (zt # zts) - L - M) = Suc (card (normalizeTag ` set zts - L - ?M))"
      unfolding e by (rule card_insert_disjoint) auto
    have g: "normalMergeLoop L (zt # zts) merged M = merged @ (spacesToHyphens zt # added)"
      using True a by simp
    have h: "\<forall>z\<in>set (zt # zts). normalizeTag z \<in> L \<or> normalizeTag z \<in> M \<or>
        (\<exists>zt'\<in>set (zt # zts). normalizeTag zt' = normalizeTag z \<and> spacesToHyphens zt' \<in> set (spacesToHyphens zt # added))"
      using b by (metis insert_iff list.simps(15))
    have i: "\<forall>t\<in>set (spacesToHyphens zt # added). \<exists>z\<in>set (zt # zts). t = spacesToHyphens z \<and> normalizeTag z \<notin> L \<and> normalizeTag z \<notin> M"
      using c True by auto
    show ?thesis
      apply (rule exI [of _ "spacesToHyphens zt # added"])
      using g h i d f by simp
  qed
qed

lemma removedInZotero_eq:
  "removedInZotero lastSynced zoteroTags = normalizeTag ` set lastSynced - normalizeTag ` set zoteroTags"
  by (auto simp: removedInZotero_def)

text \<open>The two merging branches of syncTagsTwoWay, as equations.\<close>

lemma syncTagsTwoWay_first:
  assumes "content \<noteq> []" and "lastSyncedTags st (key item) = None"
  shows "syncTagsTwoWay env st item (Some content) =
     storeLastSyncedTags env item
       (firstSyncMerge (parseFrontmatterTags content) (zoteroTagsOf st item))
       (firstSyncMerge (parseFrontmatterTags content) (zoteroTagsOf st item))
       (pushTagsToZotero item (firstSyncMerge (parseFrontmatterTags content) (zoteroTagsOf st item))
          (syncTag st) (zoteroTagsOf st item) st)"
  using assms by (simp add: syncTagsTwoWay_def Let_def)

lemma syncTagsTwoWay_normal:
  assumes "content \<noteq> []" and "lastSyncedTags st (key item) = Some lastSynced"
  shows "syncTagsTwoWay env st item (Some content) =
     storeLastSyncedTags env item
       (normalMerge (parseFrontmatterTags content) (zoteroTagsOf st item) lastSynced)
       (normalMerge (parseFrontmatterTags content) (zoteroTagsOf st item) lastSynced)
       (pushTagsToZotero item (normalMerge (parseFrontmatterTags content) (zoteroTagsOf st item) lastSynced)
          (syncTag st) (zoteroTagsOf st item) st)"
  using assms by (simp add: syncTagsTwoWay_def Let_def)

lemma syncTagsTwoWay_new:
  assumes "existingContent = None \<or> existingContent = Some []"
  shows "syncTagsTwoWay env st item existingContent =
     storeLastSyncedTags env item (map spacesToHyphens (zoteroTagsOf st item)) (zoteroTagsOf st item) st"
  using assms by (auto simp add: syncTagsTwoWay_def Let_def)

lemma storeLastSyncedTags_Inr:
  assumes "storeLastSyncedTags env item stored returned st = (Inr merged, st')"
  shows "merged = returned \<and> st' = st\<lparr>lastSyncedTags := (lastSyncedTags st)(key item \<mapsto> stored)\<rparr>"
  using assms by (auto simp: storeLastSyncedTags_def Let_def split: option.splits)

lemma pushTagsToZotero_fields:
  "lastSyncedTags (pushTagsToZotero item merged sTag zts st) = lastSyncedTags st"
  "patchRequests (pushTagsToZotero item merged sTag zts st) =
     patchRequests st @ (if tagsEqual merged zts then [] else [(key item, map hyphensToSpaces merged @ [sTag], version item)])"
  by (simp_all add: pushTagsToZotero_def)

lemma syncTagsTwoWay_patchRequests:
  assumes "syncTagsTwoWay env st item existingContent = (Inr merged, st')"
  shows "patchRequests st' =
       patchRequests st @
         (if tagsEqual merged (zoteroTagsOf st item) then []
          else [(key item, map hyphensToSpaces merged @ [syncTag st], version item)])"
proof (cases "existingContent = None \<or> existingContent = Some []")
  case True
  with assms have eq: "storeLastSyncedTags env item (map spacesToHyphens (zoteroTagsOf st item))
      (zoteroTagsOf st item) st = (Inr merged, st')"
    by (simp add: syncTagsTwoWay_new)
  from storeLastSyncedTags_Inr [OF eq] have "merged = zoteroTagsOf st item"
    and "patchRequests st' = patchRequests st"
    by simp_all
  then show ?thesis
    by (simp add: tagsEqual_def)
next
  case False
  then obtain content where c: "existingContent = Some content" "content \<noteq> []"
    by (cases existingContent) auto
  show ?thesis
  proof (cases "lastSyncedTags st (key item)")
    case None
    let ?m = "firstSyncMerge (parseFrontmatterTags content) (zoteroTagsOf st item)"
    from assms c None have eq: "storeLastSyncedTags env item ?m ?m
        (pushTagsToZotero item ?m (syncTag st) (zoteroTagsOf st item) st) = (Inr merged, st')"
      by (simp add: syncTagsTwoWay_first)
    from storeLastSyncedTags_Inr [OF eq] show ?thesis
      by (simp add: pushTagsToZotero_fields)
  next
    case (Some lastSynced)
    let ?m = "normalMerge (parseFrontmatterTags content) (zoteroTagsOf st item) lastSynced"
    from assms c Some have eq: "storeLastSyncedTags env item ?m ?m
        (pushTagsToZotero item ?m (syncTag st) (zoteroTagsOf st item) st) = (Inr merged, st')"
      by (simp add: syncTagsTwoWay_normal)
    from storeLastSyncedTags_Inr [OF eq] show ?thesis
      by (simp add: pushTagsToZotero_fields)
  qed
qed


lemma baseline_with_note:
  assumes "content \<noteq> []" and "lastSyncedTags st (key item) = Some lastSynced"
    and "syncTagsTwoWay env st item (Some content) = (Inr merged, st')"
  shows "(\<exists>kept added. merged = kept @ added \<and>
       kept = filter (\<lambda>t. normalizeTag t \<notin>
                 normalizeTag ` set lastSynced - normalizeTag ` set (zoteroTagsOf st item))
               (parseFrontmatterTags content) \<and>
       (\<forall>zt\<in>set (zoteroTagsOf st item).
           normalizeTag zt \<in> normalizeTag ` set lastSynced \<or>
           normalizeTag zt \<in> normalizeTag ` set kept \<or>
           (\<exists>zt'\<in>set (zoteroTagsOf st item).
               normalizeTag zt' = normalizeTag zt \<and> spacesToHyphens zt' \<in> set added)) \<and>
       (\<forall>t\<in>set added. \<exists>zt\<in>set (zoteroTagsOf st item).
           t = spacesToHyphens zt \<and> normalizeTag zt \<notin> normalizeTag ` set lastSynced \<and>
           normalizeTag zt \<notin> normalizeTag ` set kept) \<and>
       length added =
         card (normalizeTag ` set (zoteroTagsOf st item) - normalizeTag ` set lastSynced
                 - normalizeTag ` set kept)) \<and>
     lastSyncedTags st' (key item) = Some merged \<and>
     patchRequests st' =
       patchRequests st @
         (if tagsEqual merged (zoteroTagsOf st item) then []
          else [(key item, map hyphensToSpaces merged @ [syncTag st], version item)]) \<and>
     normalMerge [''a'', ''b'', ''c''] [''a''] [''a'', ''b''] = [''a'', ''c''] \<and>
     \<not> tagsEqual [''a'', ''c''] [''a'']"
proof -
  let ?fm = "parseFrontmatterTags content" and ?zt = "zoteroTagsOf st item"
  let ?m = "normalMerge ?fm ?zt lastSynced"
  let ?kept = "filter (\<lambda>t. normalizeTag t \<notin>
                 normalizeTag ` set lastSynced - normalizeTag ` set ?zt) ?fm"
  from assms have eq: "storeLastSyncedTags env item ?m ?m
       (pushTagsToZotero item ?m (syncTag st) ?zt st) = (Inr merged, st')"
    by (simp add: syncTagsTwoWay_normal)
  from storeLastSyncedTags_Inr [OF eq] have m: "merged = ?m"
    and s: "st' = (pushTagsToZotero item ?m (syncTag st) ?zt st)
        \<lparr>lastSyncedTags := (lastSyncedTags (pushTagsToZotero item ?m (syncTag st) ?zt st))(key item \<mapsto> ?m)\<rparr>"
    by simp_all
  have unfold: "?m = normalMergeLoop (normalizeTag ` set lastSynced) ?zt ?kept (normalizeTag ` set ?kept)"
    by (simp add: normalMerge_def Let_def removedInZotero_eq)
  from normalMergeLoop_added [of "normalizeTag ` set lastSynced" ?zt ?kept "normalizeTag ` set ?kept"]
  obtain added where
    a: "normalMergeLoop (normalizeTag ` set lastSynced) ?zt ?kept (normalizeTag ` set ?kept) = ?kept @ added"
    and b: "\<forall>zt\<in>set ?zt. normalizeTag zt \<in> normalizeTag ` set lastSynced \<or>
           normalizeTag zt \<in> normalizeTag ` set ?kept \<or>
           (\<exists>zt'\<in>set ?zt. normalizeTag zt' = normalizeTag zt \<and> spacesToHyphens zt' \<in> set added)"
    and c: "\<forall>t\<in>set added. \<exists>zt\<in>set ?zt.
           t = spacesToHyphens zt \<and> normalizeTag zt \<notin> normalizeTag ` set lastSynced \<and>
           normalizeTag zt \<notin> normalizeTag ` set ?kept"
    and d: "length added = card (normalizeTag ` set ?zt - normalizeTag ` set lastSynced - normalizeTag ` set ?kept)"
    by blast
  have p1: "\<exists>kept added. merged = kept @ added \<and> kept = ?kept \<and>
       (\<forall>zt\<in>set ?zt. normalizeTag zt \<in> normalizeTag ` set lastSynced \<or>
           normalizeTag zt \<in> normalizeTag ` set kept \<or>
           (\<exists>zt'\<in>set ?zt. normalizeTag zt' = normalizeTag zt \<and> spacesToHyphens zt' \<in> set added)) \<and>
       (\<forall>t\<in>set added. \<exists>zt\<in>set ?zt.
           t = spacesToHyphens zt \<and> normalizeTag zt \<notin> normalizeTag ` set lastSynced \<and>
           normalizeTag zt \<notin> normalizeTag ` set kept) \<and>
       length added = card (normalizeTag ` set ?zt - normalizeTag ` set lastSynced - normalizeTag ` set kept)"
    apply (rule exI [of _ ?kept])
    apply (rule exI [of _ added])
    using m unfold a b c d by simp
  have p2: "lastSyncedTags st' (key item) = Some merged"
    using s m by simp
  have p3: "patchRequests st' = patchRequests st @
         (if tagsEqual merged ?zt then []
          else [(key item, map hyphensToSpaces merged @ [syncTag st], version item)])"
    using s m by (simp add: pushTagsToZotero_fields)
  have p4: "normalMerge [''a'', ''b'', ''c''] [''a''] [''a'', ''b''] = [''a'', ''c'']"
    by code_simp
  have p5: "\<not> tagsEqual [''a'', ''c''] [''a'']"
    by (simp add: tagsEqual_def)
  from p1 p2 p3 p4 p5 show ?thesis by blast
qed

lemma newFile_result:
  assumes "existingContent = None \<or> existingContent = Some []"
    and "syncTagsTwoWay env st item existingContent = (Inr merged, st')"
  shows "merged = zoteroTagsOf st item \<and>
     lastSyncedTags st' (key item) = Some (map spacesToHyphens (zoteroTagsOf st item)) \<and>
     patchRequests st' = patchRequests st"
proof -
  from assms have eq: "storeLastSyncedTags env item (map spacesToHyphens (zoteroTagsOf st item))
      (zoteroTagsOf st item) st = (Inr merged, st')"
    by (simp add: syncTagsTwoWay_new)
  from storeLastSyncedTags_Inr [OF eq] show ?thesis
    by simp
qed


lemma content_cases:
  obtains (newFile) "existingContent = None \<or> existingContent = Some []"
  | (withNote) content where "existingContent = Some content" "content \<noteq> []"
  by (cases existingContent) auto



text \<open>
  Claim C1, as amended. When the item has last-synced tags and the note has content, the
  merged list is the note's frontmatter tags without those whose normalized form is in
  the last-synced tags but no longer in Zotero, followed by appended tags. Every Zotero
  tag has its normalized form among the last-synced tags or the kept tags, or a Zotero
  tag of the same normalized form was appended (with white space replaced by hyphens);
  only tags new since the last sync and not already present are appended, one per
  normalized form. The merged list becomes the last-synced tags. When the note is missing
  or empty, nothing is merged: the result is the Zotero tags as they are, their
  hyphenated forms become the last-synced tags, and nothing is sent. In both cases a
  PATCH is sent exactly when \<open>tagsEqual\<close> fails. For last-synced tags \<open>a, b\<close>, Zotero
  tags \<open>a\<close> and note tags \<open>a, b, c\<close> the merge is \<open>a, c\<close>, and a push is made.
\<close>

theorem C1_baseline_merge_with_note_or_recreate:
  assumes "lastSyncedTags st (key item) = Some lastSynced"
    and "syncTagsTwoWay env st item existingContent = (Inr merged, st')"
  shows "(\<forall>content. existingContent = Some content \<and> content \<noteq> [] \<longrightarrow>
        (\<exists>kept added. merged = kept @ added \<and>
           kept = filter (\<lambda>t. normalizeTag t \<notin>
                     normalizeTag ` set lastSynced - normalizeTag ` set (zoteroTagsOf st item))
                   (parseFrontmatterTags content) \<and>
           (\<forall>zt\<in>set (zoteroTagsOf st item).
               normalizeTag zt \<in> normalizeTag ` set lastSynced \<or>
               normalizeTag zt \<in> normalizeTag ` set kept \<or>
               (\<exists>zt'\<in>set (zoteroTagsOf st item).
                   normalizeTag zt' = normalizeTag zt \<and> spacesToHyphens zt' \<in> set added)) \<and>
           (\<forall>t\<in>set added. \<exists>zt\<in>set (zoteroTagsOf st item).
               t = spacesToHyphens zt \<and> normalizeTag zt \<notin> normalizeTag ` set lastSynced \<and>
               normalizeTag zt \<notin> normalizeTag ` set kept) \<and>
           length added =
             card (normalizeTag ` set (zoteroTagsOf st item) - normalizeTag ` set lastSynced
                     - normalizeTag ` set kept)) \<and>
        lastSyncedTags st' (key item) = Some merged) \<and>
     (existingContent = None \<or> existingContent = Some [] \<longrightarrow>
        merged = zoteroTagsOf st item \<and>
        lastSyncedTags st' (key item) = Some (map spacesToHyphens (zoteroTagsOf st item)) \<and>
        patchRequests st' = patchRequests st) \<and>
     patchRequests st' =
       patchRequests st @
         (if tagsEqual merged (zoteroTagsOf st item) then []
          else [(key item, map hyphensToSpaces merged @ [syncTag st], version item)]) \<and>
     normalMerge [''a'', ''b'', ''c''] [''a''] [''a'', ''b''] = [''a'', ''c''] \<and>
     \<not> tagsEqual [''a'', ''c''] [''a'']"
proof -
  let ?zts = "zoteroTagsOf st item"
  have push: "patchRequests st' = patchRequests st @
         (if tagsEqual merged ?zts then []
          else [(key item, map hyphensToSpaces merged @ [syncTag st], version item)])"
    by (rule syncTagsTwoWay_patchRequests [OF assms(2)])
  have ex: "normalMerge [''a'', ''b'', ''c''] [''a''] [''a'', ''b''] = [''a'', ''c'']"
    by code_simp
  have ex2: "\<not> tagsEqual [''a'', ''c''] [''a'']"
    by (simp add: tagsEqual_def)
  show ?thesis
  proof (cases existingContent rule: content_cases)
    case newFile
    note r = newFile_result [OF newFile assms(2)]
    from push r newFile ex ex2 show ?thesis
      by auto
  next
    case (withNote content)
    from assms(2) withNote(1) have res: "syncTagsTwoWay env st item (Some content) = (Inr merged, st')"
      by simp
    note n = baseline_with_note [OF withNote(2) assms(1) res]
    from n have strong: "\<exists>kept added. merged = kept @ added \<and>
           kept = filter (\<lambda>t. normalizeTag t \<notin> normalizeTag ` set lastSynced - normalizeTag ` set ?zts)
                   (parseFrontmatterTags content) \<and>
           (\<forall>zt\<in>set ?zts. normalizeTag zt \<in> normalizeTag ` set lastSynced \<or>
               normalizeTag zt \<in> normalizeTag ` set kept \<or>
               (\<exists>zt'\<in>set ?zts. normalizeTag zt' = normalizeTag zt \<and> spacesToHyphens zt' \<in> set added)) \<and>
           (\<forall>t\<in>set added. \<exists>zt\<in>set ?zts.
               t = spacesToHyphens zt \<and> normalizeTag zt \<notin> normalizeTag ` set lastSynced \<and>
               normalizeTag zt \<notin> normalizeTag ` set kept) \<and>
           length added = card (normalizeTag ` set ?zts - normalizeTag ` set lastSynced - normalizeTag ` set kept)"
      by blast
    from n have l: "lastSyncedTags st' (key item) = Some merged"
      by blast
    from push strong l withNote ex ex2 show ?thesis
      by auto
  qed
qed

text \<open>
  The claim as stated covers every merge with last-synced tags. The last-synced tags are
  \<open>a, b\<close>, Zotero has \<open>a\<close>, and the note is missing: the result is \<open>a\<close> and nothing is
  sent, where the claimed merge of no note tags gives no tag and a push.
\<close>

theorem C1_missing_note_returns_remote_tags_counterexample:
  "fst (syncTagsTwoWay (exampleEnv [] 0 []) (exampleState Map.empty [''K'' \<mapsto> [''a'', ''b'']] Map.empty)
          (exampleItem [''a''] 5) None)
     = Inr [''a''] \<and>
   patchRequests (snd (syncTagsTwoWay (exampleEnv [] 0 [])
          (exampleState Map.empty [''K'' \<mapsto> [''a'', ''b'']] Map.empty) (exampleItem [''a''] 5) None))
     = [] \<and>
   normalMerge [] [''a''] [''a'', ''b''] = [] \<and>
   \<not> tagsEqual [] [''a'']"
  by code_simp

theorem C1_baseline_merge_witness:
  "fst (syncTagsTwoWay (exampleEnv [] 0 []) (exampleState Map.empty [''K'' \<mapsto> [''a'', ''b'']] Map.empty)
          (exampleItem [''a''] 5) (Some (exampleNote [''a'', ''b'', ''c''])))
     = Inr [''a'', ''c''] \<and>
   lastSyncedTags (snd (syncTagsTwoWay (exampleEnv [] 0 []) (exampleState Map.empty [''K'' \<mapsto> [''a'', ''b'']] Map.empty)
          (exampleItem [''a''] 5) (Some (exampleNote [''a'', ''b'', ''c''])))) ''K''
     = Some [''a'', ''c''] \<and>
   patchRequests (snd (syncTagsTwoWay (exampleEnv [] 0 []) (exampleState Map.empty [''K'' \<mapsto> [''a'', ''b'']] Map.empty)
          (exampleItem [''a''] 5) (Some (exampleNote [''a'', ''b'', ''c'']))))
     = [(''K'', [''a'', ''c'', ''obsidian''], 5)] \<and>
   lastSyncedTags (snd (syncTagsTwoWay (exampleEnv [] 0 []) (exampleState Map.empty [''K'' \<mapsto> [''a'', ''b'']] Map.empty)
          (exampleItem [''a''] 5) None)) ''K''
     = Some [''a''] \<and>
   patchRequests (snd (syncTagsTwoWay (exampleEnv [] 0 []) (exampleState Map.empty [''K'' \<mapsto> [''a'', ''b'']] Map.empty)
          (exampleItem [''a''] 5) None))
     = []"
proof -
  let ?env = "exampleEnv [] 0 []" and ?st = "exampleState Map.empty [''K'' \<mapsto> [''a'', ''b'']] Map.empty"
  let ?item = "exampleItem [''a''] 5" and ?note = "exampleNote [''a'', ''b'', ''c'']"
  let ?r = "syncTagsTwoWay ?env ?st ?item (Some ?note)"
  let ?r' = "syncTagsTwoWay ?env ?st ?item None"
  have h1: "?note \<noteq> []"
    by (simp add: exampleNote_def)
  have h2: "lastSyncedTags ?st (key ?item) = Some [''a'', ''b'']"
    by (simp add: exampleState_def exampleItem_def)
  have f: "fst ?r = Inr [''a'', ''c'']"
    by code_simp
  then have h3: "?r = (Inr [''a'', ''c''], snd ?r)"
    by (metis prod.collapse)
  have f': "fst ?r' = Inr [''a'']"
    by code_simp
  then have h3': "?r' = (Inr [''a''], snd ?r')"
    by (metis prod.collapse)
  have k: "key ?item = ''K''" "version ?item = 5" "syncTag ?st = ''obsidian''" "patchRequests ?st = []"
    by (simp_all add: exampleItem_def exampleState_def)
  have z: "zoteroTagsOf ?st ?item = [''a'']" "map spacesToHyphens [''a''] = [''a'']"
    by code_simp+
  have t: "\<not> tagsEqual [''a'', ''c''] [''a'']"
    by (simp add: tagsEqual_def)
  have hs: "map hyphensToSpaces [''a'', ''c''] = [''a'', ''c'']"
    by code_simp
  note th = C1_baseline_merge_with_note_or_recreate [OF h2 h3]
  note th' = C1_baseline_merge_with_note_or_recreate [OF h2 h3']
  from th h1 have q1: "lastSyncedTags (snd ?r) (key ?item) = Some [''a'', ''c'']"
    by blast
  from th have q2: "patchRequests (snd ?r) =
       patchRequests ?st @
         (if tagsEqual [''a'', ''c''] (zoteroTagsOf ?st ?item) then []
          else [(key ?item, map hyphensToSpaces [''a'', ''c''] @ [syncTag ?st], version ?item)])"
    by blast
  from th' have q3: "lastSyncedTags (snd ?r') (key ?item) = Some (map spacesToHyphens (zoteroTagsOf ?st ?item))"
    by blast
  from th' have q4: "patchRequests (snd ?r') = patchRequests ?st"
    by blast
  from q1 have r1: "lastSyncedTags (snd ?r) ''K'' = Some [''a'', ''c'']"
    by (simp only: k)
  from q2 have r2: "patchRequests (snd ?r) = [(''K'', [''a'', ''c'', ''obsidian''], 5)]"
    by (simp only: k z hs t if_False append_Nil append_Cons)
  from q3 have r3: "lastSyncedTags (snd ?r') ''K'' = Some [''a'']"
    by (simp only: k z)
  from q4 have r4: "patchRequests (snd ?r') = []"
    by (simp only: k)
  from f r1 r2 r3 r4 show ?thesis by blast
qed

text \<open>
  Claim C3, as amended. A merge sends at most one PATCH, and sends it exactly when the merged
  list and the Zotero tags (without the sync tag) differ as multisets of normalized tags,
  that is, in length or in their sorted normalized forms. The tags of the PATCH are the
  merged tags with every hyphen replaced by a space, followed by the sync tag.
\<close>

theorem C3_push_iff_normalized_multisets_differ:
  assumes "syncTagsTwoWay env st item existingContent = (Inr merged, st')"
  shows "patchRequests st' =
       patchRequests st @
         (if mset (map normalizeTag merged) = mset (map normalizeTag (zoteroTagsOf st item)) then []
          else [(key item, map hyphensToSpaces merged @ [syncTag st], version item)])"
  using syncTagsTwoWay_patchRequests [OF assms] by (simp add: tagsEqual_mset)

text \<open>
  The claim as stated compares sets. Zotero holds \<open>deep learning\<close> and \<open>Deep Learning\<close>,
  the note and the last-synced tags hold \<open>deep-learning\<close>: the merged tags and the Zotero
  tags have the same set of normalized forms, yet a PATCH is sent, and its tag is
  \<open>deep learning\<close>, not the merged tag \<open>deep-learning\<close>.
\<close>

theorem C3_push_with_equal_normalized_sets_counterexample:
  "fst (syncTagsTwoWay (exampleEnv [] 0 [])
          (exampleState Map.empty [''K'' \<mapsto> [''deep-learning'']] Map.empty)
          (exampleItem [''deep learning'', ''Deep Learning''] 5)
          (Some (exampleNote [''deep-learning''])))
     = Inr [''deep-learning''] \<and>
   set (map normalizeTag [''deep-learning'']) =
     set (map normalizeTag (zoteroTagsOf (exampleState Map.empty [''K'' \<mapsto> [''deep-learning'']] Map.empty)
                              (exampleItem [''deep learning'', ''Deep Learning''] 5))) \<and>
   patchRequests (snd (syncTagsTwoWay (exampleEnv [] 0 [])
          (exampleState Map.empty [''K'' \<mapsto> [''deep-learning'']] Map.empty)
          (exampleItem [''deep learning'', ''Deep Learning''] 5)
          (Some (exampleNote [''deep-learning'']))))
     = [(''K'', [''deep learning'', ''obsidian''], 5)]"
  by code_simp

theorem C3_push_witness:
  "patchRequests (snd (syncTagsTwoWay (exampleEnv [] 0 [])
          (exampleState Map.empty [''K'' \<mapsto> [''a'']] Map.empty)
          (exampleItem [''a''] 5) (Some (exampleNote [''A''])))) = [] \<and>
   patchRequests (snd (syncTagsTwoWay (exampleEnv [] 0 [])
          (exampleState Map.empty [''K'' \<mapsto> [''a'']] Map.empty)
          (exampleItem [''a''] 5) (Some (exampleNote [''a'', ''x-y''])))) =
     [(''K'', [''a'', ''x y'', ''obsidian''], 5)]"
proof -
  let ?env = "exampleEnv [] 0 []" and ?st = "exampleState Map.empty [''K'' \<mapsto> [''a'']] Map.empty"
  let ?item = "exampleItem [''a''] 5"
  let ?r1 = "syncTagsTwoWay ?env ?st ?item (Some (exampleNote [''A'']))"
  let ?r2 = "syncTagsTwoWay ?env ?st ?item (Some (exampleNote [''a'', ''x-y'']))"
  have f1: "fst ?r1 = Inr [''A'']"
    by code_simp
  then have h1: "?r1 = (Inr [''A''], snd ?r1)"
    by (metis prod.collapse)
  have f2: "fst ?r2 = Inr [''a'', ''x-y'']"
    by code_simp
  then have h2: "?r2 = (Inr [''a'', ''x-y''], snd ?r2)"
    by (metis prod.collapse)
  have k: "key ?item = ''K''" "version ?item = 5" "syncTag ?st = ''obsidian''" "patchRequests ?st = []"
    by (simp_all add: exampleItem_def exampleState_def)
  have z: "zoteroTagsOf ?st ?item = [''a'']"
    by code_simp
  have n1: "normalizeTag ''A'' = ''a''" "normalizeTag ''a'' = ''a''" "normalizeTag ''x-y'' = ''x y''"
    by code_simp+
  have n2: "hyphensToSpaces ''a'' = ''a''" "hyphensToSpaces ''x-y'' = ''x y''"
    by code_simp+
  have q1: "patchRequests (snd ?r1) = []"
    using C3_push_iff_normalized_multisets_differ [OF h1] by (simp add: k z n1)
  have q2: "patchRequests (snd ?r2) = [(''K'', [''a'', ''x y'', ''obsidian''], 5)]"
    using C3_push_iff_normalized_multisets_differ [OF h2] by (simp add: k z n1 n2)
  from q1 q2 show ?thesis by blast
qed

section \<open>The single-flight guard\<close>

text \<open>
  Claim C8. While a sync is in progress, \<open>syncAll\<close> (and \<open>syncSingleItem\<close>) returns
  zero counts and the single message \<open>Sync already in progress\<close>, and the state, with
  every baseline in it, is unchanged: the call is rejected and nothing is queued.
\<close>

theorem C8_concurrent_trigger_is_rejected:
  assumes "isSyncing st"
  shows "syncAll env st =
           (\<lparr>created = 0, updated = 0, skipped = 0, errors = [''Sync already in progress'']\<rparr>, st) \<and>
         syncSingleItem env itemKey st =
           (\<lparr>created = 0, updated = 0, skipped = 0, errors = [''Sync already in progress'']\<rparr>, st)"
  using assms by (simp add: syncAll_def syncSingleItem_def alreadyInProgress_def)

theorem C8_concurrent_trigger_witness:
  "syncAll (exampleEnv [exampleItem [''a''] 5] 10 [])
       ((exampleState Map.empty Map.empty Map.empty)\<lparr>isSyncing := True\<rparr>) =
     (\<lparr>created = 0, updated = 0, skipped = 0, errors = [''Sync already in progress'']\<rparr>,
      (exampleState Map.empty Map.empty Map.empty)\<lparr>isSyncing := True\<rparr>) \<and>
   syncSingleItem (exampleEnv [exampleItem [''a''] 5] 10 []) ''K''
       ((exampleState Map.empty Map.empty Map.empty)\<lparr>isSyncing := True\<rparr>) =
     (\<lparr>created = 0, updated = 0, skipped = 0, errors = [''Sync already in progress'']\<rparr>,
      (exampleState Map.empty Map.empty Map.empty)\<lparr>isSyncing := True\<rparr>)"
proof -
  have h: "isSyncing ((exampleState Map.empty Map.empty Map.empty)\<lparr>isSyncing := True\<rparr>)"
    by simp
  show ?thesis
    by (rule C8_concurrent_trigger_is_rejected [OF h])
qed

text \<open>
  Claim C10. A call of \<open>syncAll\<close> or \<open>syncSingleItem\<close> that is not rejected ends with the
  \<open>isSyncing\<close> flag reset, whatever the \<open>try\<close> block did: returned early, completed or
  threw.
\<close>

theorem C10_flag_reset_on_every_return_path:
  assumes "\<not> isSyncing st"
  shows "\<not> isSyncing (snd (syncAll env st)) \<and> \<not> isSyncing (snd (syncSingleItem env itemKey st))"
  using assms
  by (simp add: syncAll_def syncSingleItem_def split: prod.splits option.splits)

theorem C10_flag_reset_witness:
  "\<not> isSyncing (snd (syncAll (exampleEnv [exampleItem [''a''] 5] 10 [])
                       ((exampleState Map.empty Map.empty Map.empty)\<lparr>userId := []\<rparr>))) \<and>
   \<not> isSyncing (snd (syncSingleItem (exampleEnv [exampleItem [''a''] 5] 10 []) ''K''
                       ((exampleState Map.empty Map.empty Map.empty)\<lparr>userId := []\<rparr>))) \<and>
   errors (fst (syncAll (exampleEnv [exampleItem [''a''] 5] 10 [])
                       ((exampleState Map.empty Map.empty Map.empty)\<lparr>userId := []\<rparr>))) =
     [''Sync failed: User ID is required. Configure it in settings.'']"
proof -
  let ?st = "(exampleState Map.empty Map.empty Map.empty)\<lparr>userId := []\<rparr>"
  have h: "\<not> isSyncing ?st"
    by (simp add: exampleState_def)
  have e: "errors (fst (syncAll (exampleEnv [exampleItem [''a''] 5] 10 []) ?st)) =
     [''Sync failed: User ID is required. Configure it in settings.'']"
    by code_simp
  from C10_flag_reset_on_every_return_path [OF h] e show ?thesis
    by blast
qed

section \<open>What a step leaves unchanged\<close>

lemma vaultExtends_refl: "vaultExtends v v"
  by (simp add: vaultExtends_def)

lemma vaultExtends_trans: "vaultExtends a b \<Longrightarrow> vaultExtends b c \<Longrightarrow> vaultExtends a c"
  by (simp add: vaultExtends_def)

lemma vaultExtends_file: "vaultExtends v (v(p \<mapsto> TFile c))"
  by (simp add: vaultExtends_def isTFile_def)

lemma vaultExtends_new: "v p = None \<Longrightarrow> vaultExtends v (v(p \<mapsto> x))"
  by (auto simp: vaultExtends_def isTFile_def)

lemma framed_refl: "framed st st"
  by (simp add: framed_def vaultExtends_refl)

lemma framed_trans: "framed a b \<Longrightarrow> framed b c \<Longrightarrow> framed a c"
  by (auto simp: framed_def intro: vaultExtends_trans)

lemma createLevels_extends: "vaultExtends v (snd (createLevels env ps v))"
proof (induction ps arbitrary: v)
  case Nil
  then show ?case by (simp add: vaultExtends_refl)
next
  case (Cons current rest)
  show ?case
  proof (cases "v current")
    case (Some folder)
    then show ?thesis using Cons.IH [of v] by simp
  next
    case None
    show ?thesis
    proof (cases "vaultCreateFolder env current")
      case (Some e)
      with None show ?thesis by (simp add: vaultExtends_refl)
    next
      case n: None
      have "vaultExtends v (v(current \<mapsto> TFolder))"
        using None by (rule vaultExtends_new)
      then have "vaultExtends v (snd (createLevels env rest (v(current \<mapsto> TFolder))))"
        using Cons.IH [of "v(current \<mapsto> TFolder)"] by (rule vaultExtends_trans)
      moreover have "createLevels env (current # rest) v = createLevels env rest (v(current \<mapsto> TFolder))"
        using None n by simp
      ultimately show ?thesis by simp
    qed
  qed
qed

lemma ensureFolderRecursive_extends: "vaultExtends v (snd (ensureFolderRecursive env folderPath v))"
  by (simp add: ensureFolderRecursive_def Let_def vaultExtends_refl createLevels_extends)

lemma ensureFolder_extends: "vaultExtends v (snd (ensureFolder env folderPath v))"
  by (auto simp: ensureFolder_def Let_def vaultExtends_refl vaultExtends_new split: option.splits)

lemma processImageAnnotations_extends: "vaultExtends v (processImageAnnotations env anns v)"
proof (induction anns arbitrary: v)
  case Nil
  then show ?case by (simp add: vaultExtends_refl)
next
  case (Cons a anns)
  obtain normalizedPath imageData where a: "a = (normalizedPath, imageData)"
    by (cases a)
  obtain thrown v1 where r: "ensureFolderRecursive env (parentFolder normalizedPath) v = (thrown, v1)"
    by (cases "ensureFolderRecursive env (parentFolder normalizedPath) v")
  have e: "vaultExtends v v1"
    using ensureFolderRecursive_extends [of v env "parentFolder normalizedPath"] r by simp
  have f: "vaultExtends v (v1(normalizedPath \<mapsto> TFile c))" for c
    using e vaultExtends_file [of v1 normalizedPath c] by (rule vaultExtends_trans)
  have g: "vaultExtends v (processImageAnnotations env anns v1)"
    using e Cons.IH [of v1] by (rule vaultExtends_trans)
  have h: "vaultExtends v (processImageAnnotations env anns (v1(normalizedPath \<mapsto> TFile c)))" for c
    using f [of c] Cons.IH [of "v1(normalizedPath \<mapsto> TFile c)"] by (rule vaultExtends_trans)
  have "processImageAnnotations env (a # anns) v = processImageAnnotations env anns v \<or>
        processImageAnnotations env (a # anns) v = processImageAnnotations env anns v1 \<or>
        (\<exists>c. processImageAnnotations env (a # anns) v =
              processImageAnnotations env anns (v1(normalizedPath \<mapsto> TFile c)))"
    unfolding a using r by (cases imageData; cases thrown; cases "vaultCreateBinary env normalizedPath") auto
  then show ?case
    using Cons.IH [of v] g h by auto
qed

lemma buildSyncData_framed: "framed st (snd (buildSyncData env item st))"
  by (auto simp: buildSyncData_def framed_def vaultExtends_refl processImageAnnotations_extends
      split: option.splits)

lemma buildSyncData_baselines:
  "itemVersions (snd (buildSyncData env item st)) = itemVersions st"
  "lastSyncedTags (snd (buildSyncData env item st)) = lastSyncedTags st"
  "itemFilenames (snd (buildSyncData env item st)) = itemFilenames st"
  "patchRequests (snd (buildSyncData env item st)) = patchRequests st"
  by (auto simp: buildSyncData_def split: option.splits)

lemma resolveFilename_framed: "framed st (snd (resolveFilename env itemKey item st))"
  by (auto simp: resolveFilename_def framed_def Let_def vaultExtends_refl split: option.splits)

lemma resolveFilename_baselines:
  "itemVersions (snd (resolveFilename env itemKey item st)) = itemVersions st"
  "lastSyncedTags (snd (resolveFilename env itemKey item st)) = lastSyncedTags st"
  "vault (snd (resolveFilename env itemKey item st)) = vault st"
  "patchRequests (snd (resolveFilename env itemKey item st)) = patchRequests st"
  by (auto simp: resolveFilename_def Let_def split: option.splits)

lemma storeLastSyncedTags_fields:
  "framed st (snd (storeLastSyncedTags env item stored returned st))"
  "vault (snd (storeLastSyncedTags env item stored returned st)) = vault st"
  "itemVersions (snd (storeLastSyncedTags env item stored returned st)) = itemVersions st"
  "lastSyncedTags (snd (storeLastSyncedTags env item stored returned st)) = (lastSyncedTags st)(key item \<mapsto> stored)"
  "patchRequests (snd (storeLastSyncedTags env item stored returned st)) = patchRequests st"
  by (auto simp: storeLastSyncedTags_def Let_def framed_def vaultExtends_refl split: option.splits)

lemma pushTagsToZotero_framed:
  "framed st (pushTagsToZotero item merged sTag zts st)"
  "vault (pushTagsToZotero item merged sTag zts st) = vault st"
  "itemVersions (pushTagsToZotero item merged sTag zts st) = itemVersions st"
  by (auto simp: pushTagsToZotero_def framed_def vaultExtends_refl)

lemma syncTagsTwoWay_fields:
  "framed st (snd (syncTagsTwoWay env st item existingContent))"
  "vault (snd (syncTagsTwoWay env st item existingContent)) = vault st"
  "itemVersions (snd (syncTagsTwoWay env st item existingContent)) = itemVersions st"
  by (auto simp: syncTagsTwoWay_def Let_def storeLastSyncedTags_fields pushTagsToZotero_framed
      split: option.splits intro: framed_trans [OF pushTagsToZotero_framed(1) storeLastSyncedTags_fields(1)])

lemma setItemVersion_fields:
  "framed st (snd (setItemVersion env k v st))"
  "vault (snd (setItemVersion env k v st)) = vault st"
  "itemVersions (snd (setItemVersion env k v st)) = (itemVersions st)(k \<mapsto> v)"
  "fst (setItemVersion env k v st) = saveSettings env (snd (setItemVersion env k v st))"
  by (auto simp: setItemVersion_def Let_def framed_def vaultExtends_refl)

lemma framed_update:
  "framed st (st\<lparr>vault := (vault st)(p \<mapsto> TFile c), itemVersions := iv\<rparr>)"
  "framed st (st\<lparr>itemVersions := iv\<rparr>)"
  "framed st (st\<lparr>vault := (vault st)(p \<mapsto> TFile c)\<rparr>)"
  by (simp_all add: framed_def vaultExtends_file vaultExtends_refl)

lemma reconcileAndWrite_outcome:
  assumes "reconcileAndWrite env item filename filePath existingFile res st = (thrown, res', st')"
  shows "framed st st' \<and> skipped res' = skipped res \<and> errors res' = errors res \<and>
     lastSyncedTags st' (key item) \<noteq> None \<and>
     created res \<le> created res' \<and> updated res \<le> updated res' \<and>
     (case thrown of
        None \<Rightarrow> itemVersions st' = (itemVersions st)(key item \<mapsto> version item) \<and>
                 created res' + updated res' = created res + updated res + 1
      | Some e \<Rightarrow>
          (itemVersions st' = itemVersions st \<and> created res' = created res \<and> updated res' = updated res) \<or>
          (saveSettings env st' = Some e \<and>
           itemVersions st' = (itemVersions st)(key item \<mapsto> version item) \<and>
           created res' + updated res' = created res + updated res + 1))"
proof -
  let ?ec = "case existingFile of Some (TFile c) \<Rightarrow> Some c | _ \<Rightarrow> None"
  obtain r st1 where t: "syncTagsTwoWay env st item ?ec = (r, st1)"
    by (cases "syncTagsTwoWay env st item ?ec")
  have f1: "framed st st1"
    using syncTagsTwoWay_fields(1) [of st env item ?ec] t by simp
  have f2: "itemVersions st1 = itemVersions st"
    using syncTagsTwoWay_fields(3) [of env st item ?ec] t by simp
  have f3: "lastSyncedTags st1 (key item) \<noteq> None"
    using t by (auto simp: syncTagsTwoWay_def storeLastSyncedTags_def Let_def split: option.splits if_splits)
  have "framed st1 st' \<and> skipped res' = skipped res \<and> errors res' = errors res \<and>
     lastSyncedTags st' (key item) \<noteq> None \<and>
     created res \<le> created res' \<and> updated res \<le> updated res' \<and>
     (case thrown of
        None \<Rightarrow> itemVersions st' = (itemVersions st)(key item \<mapsto> version item) \<and>
                 created res' + updated res' = created res + updated res + 1
      | Some e \<Rightarrow>
          (itemVersions st' = itemVersions st \<and> created res' = created res \<and> updated res' = updated res) \<or>
          (saveSettings env st' = Some e \<and>
           itemVersions st' = (itemVersions st)(key item \<mapsto> version item) \<and>
           created res' + updated res' = created res + updated res + 1))"
    using assms t f3 f2
    unfolding reconcileAndWrite_def Let_def setItemVersion_def
    by (auto simp: framed_update framed_refl split: sum.splits option.splits) (metis+)
  with f1 show ?thesis
    by (blast intro: framed_trans)
qed

lemma resolveFilename_Inl:
  assumes "resolveFilename env itemKey item st = (Inl e, st1)"
  shows "saveSettings env st1 = Some e"
  using assms by (auto simp: resolveFilename_def Let_def split: option.splits if_splits)

lemma processItemBody_outcome:
  assumes "processItemBody env item res st = (thrown, res', st')"
  shows "framed st st' \<and> errors res' = errors res \<and> created res \<le> created res' \<and>
     updated res \<le> updated res' \<and> skipped res \<le> skipped res' \<and>
     (case thrown of
        None \<Rightarrow> created res' + updated res' + skipped res' = created res + updated res + skipped res + 1
      | Some e \<Rightarrow>
          (itemVersions st' = itemVersions st \<and> created res' = created res \<and> updated res' = updated res \<and>
           skipped res' = skipped res) \<or>
          (saveSettings env st' = Some e \<and>
           itemVersions st' = (itemVersions st)(key item \<mapsto> version item) \<and>
           created res' + updated res' = created res + updated res + 1 \<and> skipped res' = skipped res))"
proof -
  obtain r st1 where f: "resolveFilename env (key item) item st = (r, st1)"
    by (cases "resolveFilename env (key item) item st")
  have f1: "framed st st1" and f2: "itemVersions st1 = itemVersions st"
    using resolveFilename_framed [of st env "key item" item]
      resolveFilename_baselines(1) [of env "key item" item st] f by simp_all
  show ?thesis
  proof (cases r)
    case (Inl e)
    with assms f have "thrown = Some e" "res' = res" "st' = st1"
      by (simp_all add: processItemBody_def)
    with f1 f2 show ?thesis by simp
  next
    case (Inr filename)
    let ?filePath = "filePathOf env st1 filename"
    let ?existingFile = "vault st1 ?filePath"
    show ?thesis
    proof (cases "shouldSkip st1 item ?existingFile")
      case True
      with assms f Inr have "thrown = None" "res' = res\<lparr>skipped := skipped res + 1\<rparr>" "st' = st1"
        by (simp_all add: processItemBody_def Let_def)
      with f1 show ?thesis by simp
    next
      case False
      obtain b st2 where bs: "buildSyncData env item st1 = (b, st2)"
        by (cases "buildSyncData env item st1")
      have b1: "framed st1 st2" and b2: "itemVersions st2 = itemVersions st1"
        using buildSyncData_framed [of st1 env item] buildSyncData_baselines(1) [of env item st1] bs
        by simp_all
      have f12: "framed st st2"
        using f1 b1 by (rule framed_trans)
      show ?thesis
      proof (cases b)
        case (Some e)
        with assms f Inr False bs have "thrown = Some e" "res' = res" "st' = st2"
          by (simp_all add: processItemBody_def Let_def)
        with f12 f2 b2 show ?thesis by simp
      next
        case None
        with assms f Inr False bs
        have rw: "reconcileAndWrite env item filename ?filePath ?existingFile res st2 = (thrown, res', st')"
          by (simp add: processItemBody_def Let_def)
        note o = reconcileAndWrite_outcome [OF rw]
        from o have "framed st2 st'" by blast
        with f12 have fr: "framed st st'" by (rule framed_trans)
        from o f2 b2 fr show ?thesis
          by (cases thrown) auto
      qed
    qed
  qed
qed

lemma processItem_outcome:
  assumes "processItem env item (res, st) = (res', st')"
  shows "framed st st' \<and> attempts res + 1 \<le> attempts res' \<and>
     (errors res' = errors res \<or>
      (\<exists>e. errors res' = errors res @ [''Error processing item '' @ key item @ '': '' @ e] \<and>
           (itemVersions st' = itemVersions st \<and> created res' = created res \<and>
            updated res' = updated res \<and> skipped res' = skipped res \<or>
            saveSettings env st' = Some e \<and>
            itemVersions st' = (itemVersions st)(key item \<mapsto> version item))))"
proof -
  obtain thrown res1 st1 where b: "processItemBody env item res st = (thrown, res1, st1)"
    by (cases "processItemBody env item res st") auto
  note o = processItemBody_outcome [OF b]
  show ?thesis
  proof (cases thrown)
    case None
    with assms b have "res' = res1" "st' = st1"
      by (simp_all add: processItem_def)
    with o None show ?thesis
      by (simp add: attempts_def)
  next
    case (Some e)
    with assms b have r: "res' = res1\<lparr>errors := errors res1 @ [''Error processing item '' @ key item @ '': '' @ e]\<rparr>"
      and s: "st' = st1"
      by (simp_all add: processItem_def)
    from o Some have o1: "framed st st1" "errors res1 = errors res" "created res \<le> created res1"
      "updated res \<le> updated res1" "skipped res \<le> skipped res1"
      and o2: "(itemVersions st1 = itemVersions st \<and> created res1 = created res \<and> updated res1 = updated res \<and>
           skipped res1 = skipped res) \<or>
          (saveSettings env st1 = Some e \<and>
           itemVersions st1 = (itemVersions st)(key item \<mapsto> version item) \<and>
           created res1 + updated res1 = created res + updated res + 1 \<and> skipped res1 = skipped res)"
      by simp_all
    have a: "attempts res + 1 \<le> attempts res'"
      using r o1 by (simp add: attempts_def)
    from o2 have c: "itemVersions st' = itemVersions st \<and> created res' = created res \<and>
            updated res' = updated res \<and> skipped res' = skipped res \<or>
            saveSettings env st' = Some e \<and>
            itemVersions st' = (itemVersions st)(key item \<mapsto> version item)"
      using r s by auto
    have d: "errors res' = errors res @ [''Error processing item '' @ key item @ '': '' @ e]"
      using r o1 by simp
    from o1(1) s a c d show ?thesis by blast
  qed
qed

lemma processItems_outcome:
  assumes "processItems env items (res, st) = (res', st')"
  shows "framed st st' \<and> attempts res + length items \<le> attempts res'"
  using assms
proof (induction items arbitrary: res st)
  case Nil
  then show ?case by (simp add: framed_refl)
next
  case (Cons item rest)
  obtain res1 st1 where p: "processItem env item (res, st) = (res1, st1)"
    by (cases "processItem env item (res, st)")
  from Cons.prems p have "processItems env rest (res1, st1) = (res', st')"
    by simp
  from Cons.IH [OF this] processItem_outcome [OF p] show ?case
    by (auto intro: framed_trans)
qed

lemma isTFile_iff: "isTFile f \<longleftrightarrow> (\<exists>c. f = Some (TFile c))"
  by (auto simp: isTFile_def split: option.splits AbstractFile.splits)

lemma setLibraryVersion_fields:
  "vault (snd (setLibraryVersion env v st)) = vault st"
  "userId (snd (setLibraryVersion env v st)) = userId st"
  "syncTag (snd (setLibraryVersion env v st)) = syncTag st"
  "isSyncing (snd (setLibraryVersion env v st)) = isSyncing st"
  "lastSyncVersion (snd (setLibraryVersion env v st)) = v"
  by (simp_all add: setLibraryVersion_def Let_def)

lemma syncAllBody_outcome:
  assumes "syncAllBody env res st = (thrown, res', st')"
  shows "userId st' = userId st \<and> syncTag st' = syncTag st \<and> isSyncing st' = isSyncing st \<and>
     vaultExtends (vault st) (vault st')"
proof -
  let ?since = "if getLibraryVersion st > 0 then Some (getLibraryVersion st) else None"
  have trivial: "userId st = userId st \<and> syncTag st = syncTag st \<and> isSyncing st = isSyncing st \<and>
     vaultExtends (vault st) (vault st)"
    by (simp add: vaultExtends_refl)
  show ?thesis
  proof (cases "userId st = [] \<or> fetchCollections env \<noteq> None")
    case True
    with assms have "st' = st"
      by (auto simp: syncAllBody_def split: option.splits if_splits)
    with trivial show ?thesis by simp
  next
    case ok: False
    show ?thesis
    proof (cases "fetchItemsByTag env (syncTag st) ?since")
      case (Inl e)
      with assms ok have "st' = st"
        by (auto simp: syncAllBody_def Let_def)
      with trivial show ?thesis by simp
    next
      case (Inr p)
      obtain items libraryVersion where p: "p = (items, libraryVersion)"
        by (cases p)
      show ?thesis
      proof (cases "items = [] \<and> getLibraryVersion st > 0")
        case True
        with assms ok Inr p have "st' = st"
          by (auto simp: syncAllBody_def Let_def)
        with trivial show ?thesis by simp
      next
        case False
        obtain t v1 where ef: "ensureFolder env (outputFolder st) (vault st) = (t, v1)"
          by (cases "ensureFolder env (outputFolder st) (vault st)")
        have ev: "vaultExtends (vault st) v1"
          using ensureFolder_extends [of "vault st" env "outputFolder st"] ef by simp
        show ?thesis
        proof (cases t)
          case (Some e)
          with assms ok Inr p False ef have "st' = st\<lparr>vault := v1\<rparr>"
            by (auto simp: syncAllBody_def Let_def)
          with ev show ?thesis by simp
        next
          case None
          obtain res1 st1 where pi: "processItems env (filter isTopLevel items) (res, st\<lparr>vault := v1\<rparr>) = (res1, st1)"
            by (cases "processItems env (filter isTopLevel items) (res, st\<lparr>vault := v1\<rparr>)")
          from processItems_outcome [OF pi] have fr: "framed (st\<lparr>vault := v1\<rparr>) st1"
            by blast
          then have s1: "userId st1 = userId st" "syncTag st1 = syncTag st" "isSyncing st1 = isSyncing st"
            "vaultExtends v1 (vault st1)"
            by (simp_all add: framed_def)
          have v: "vaultExtends (vault st) (vault st1)"
            using ev s1(4) by (rule vaultExtends_trans)
          from assms ok Inr p False ef None pi
          have "st' = st1 \<or> st' = snd (setLibraryVersion env libraryVersion st1)"
            by (auto simp: syncAllBody_def Let_def split: prod.splits if_splits)
          with s1 v show ?thesis
            by (auto simp: setLibraryVersion_fields)
        qed
      qed
    qed
  qed
qed

lemma syncAll_vaultExtends: "vaultExtends (vault st) (vault (snd (syncAll env st)))"
proof (cases "isSyncing st")
  case True
  then show ?thesis by (simp add: syncAll_def vaultExtends_refl)
next
  case False
  obtain thrown res st1 where b: "syncAllBody env emptyResult (st\<lparr>isSyncing := True\<rparr>) = (thrown, res, st1)"
    by (cases "syncAllBody env emptyResult (st\<lparr>isSyncing := True\<rparr>)") auto
  from syncAllBody_outcome [OF b] have "vaultExtends (vault st) (vault st1)"
    by simp
  with False b show ?thesis
    by (cases thrown) (simp_all add: syncAll_def)
qed

lemma syncSingleItemBody_vaultExtends:
  assumes "syncSingleItemBody env itemKey res st = (thrown, res', st')"
  shows "vaultExtends (vault st) (vault st')"
proof (cases "userId st = [] \<or> fetchCollections env \<noteq> None \<or> fetchItem env itemKey = None")
  case True
  with assms have "st' = st"
    by (auto simp: syncSingleItemBody_def split: option.splits if_splits)
  then show ?thesis by (simp add: vaultExtends_refl)
next
  case ok: False
  then obtain item where it: "fetchItem env itemKey = Some item"
    by auto
  obtain t v1 where ef: "ensureFolder env (outputFolder st) (vault st) = (t, v1)"
    by (cases "ensureFolder env (outputFolder st) (vault st)")
  have ev: "vaultExtends (vault st) v1"
    using ensureFolder_extends [of "vault st" env "outputFolder st"] ef by simp
  show ?thesis
  proof (cases t)
    case (Some e)
    with assms ok it ef have "st' = st\<lparr>vault := v1\<rparr>"
      by (auto simp: syncSingleItemBody_def)
    with ev show ?thesis by simp
  next
    case None
    obtain r st1 where rf: "resolveFilename env itemKey item (st\<lparr>vault := v1\<rparr>) = (r, st1)"
      by (cases "resolveFilename env itemKey item (st\<lparr>vault := v1\<rparr>)")
    have v1: "vault st1 = v1"
      using resolveFilename_baselines(3) [of env itemKey item "st\<lparr>vault := v1\<rparr>"] rf by simp
    show ?thesis
    proof (cases r)
      case (Inl e)
      with assms ok it ef None rf have "st' = st1"
        by (auto simp: syncSingleItemBody_def)
      with ev v1 show ?thesis by simp
    next
      case (Inr filename)
      obtain b st2 where bs: "buildSyncData env item st1 = (b, st2)"
        by (cases "buildSyncData env item st1")
      have "framed st1 st2"
        using buildSyncData_framed [of st1 env item] bs by simp
      then have "vaultExtends v1 (vault st2)"
        using v1 by (simp add: framed_def)
      with ev have v2: "vaultExtends (vault st) (vault st2)"
        by (rule vaultExtends_trans)
      show ?thesis
      proof (cases b)
        case (Some e)
        with assms ok it ef None rf Inr bs have "st' = st2"
          by (auto simp: syncSingleItemBody_def)
        with v2 show ?thesis by simp
      next
        case n: None
        with assms ok it ef None rf Inr bs
        have "reconcileAndWrite env item filename (filePathOf env st2 filename)
                (vault st2 (filePathOf env st2 filename)) res st2 = (thrown, res', st')"
          by (auto simp: syncSingleItemBody_def Let_def)
        from reconcileAndWrite_outcome [OF this] have "vaultExtends (vault st2) (vault st')"
          by (simp add: framed_def)
        with v2 show ?thesis by (rule vaultExtends_trans)
      qed
    qed
  qed
qed

lemma syncSingleItem_vaultExtends: "vaultExtends (vault st) (vault (snd (syncSingleItem env itemKey st)))"
proof (cases "isSyncing st")
  case True
  then show ?thesis by (simp add: syncSingleItem_def vaultExtends_refl)
next
  case False
  obtain thrown res st1 where b: "syncSingleItemBody env itemKey emptyResult (st\<lparr>isSyncing := True\<rparr>) = (thrown, res, st1)"
    by (cases "syncSingleItemBody env itemKey emptyResult (st\<lparr>isSyncing := True\<rparr>)") auto
  from syncSingleItemBody_vaultExtends [OF b] have "vaultExtends (vault st) (vault st1)"
    by simp
  with False b show ?thesis
    by (cases thrown) (simp_all add: syncSingleItem_def)
qed

section \<open>Documents are never deleted\<close>

text \<open>
  Claim C9. Every file of the vault before a \<open>syncAll\<close> or a \<open>syncSingleItem\<close> is still
  a file of the vault after it, whatever the remote returns (also when an item has gone
  or lost the sync tag) and whatever fails: the engine only creates folders and files and
  modifies files.
\<close>

theorem C9_no_document_is_deleted:
  "(\<forall>p c. vault st p = Some (TFile c) \<longrightarrow> (\<exists>c'. vault (snd (syncAll env st)) p = Some (TFile c'))) \<and>
   (\<forall>p c. vault st p = Some (TFile c) \<longrightarrow>
      (\<exists>c'. vault (snd (syncSingleItem env itemKey st)) p = Some (TFile c'))) \<and>
   dom (vault st) \<subseteq> dom (vault (snd (syncAll env st))) \<and>
   dom (vault st) \<subseteq> dom (vault (snd (syncSingleItem env itemKey st)))"
proof -
  have a: "vaultExtends v v' \<Longrightarrow> v p = Some (TFile c) \<Longrightarrow> \<exists>c'. v' p = Some (TFile c')" for v v' p c
    by (simp add: vaultExtends_def isTFile_iff)
  have b: "vaultExtends v v' \<Longrightarrow> dom v \<subseteq> dom v'" for v v'
    by (auto simp: vaultExtends_def)
  from a [OF syncAll_vaultExtends] a [OF syncSingleItem_vaultExtends]
    b [OF syncAll_vaultExtends] b [OF syncSingleItem_vaultExtends]
  show ?thesis by blast
qed

theorem C9_no_document_is_deleted_witness:
  "vault (snd (syncAll (exampleEnv [exampleItem [''a''] 5] 10 [])
                 (exampleState Map.empty Map.empty (exampleVault [''a''])))) ''Notes/gone.md''
     = Some (TFile ''an old note'') \<and>
   (\<exists>c'. vault (snd (syncSingleItem (exampleEnv [exampleItem [''a''] 5] 10 []) ''K''
                 (exampleState Map.empty Map.empty (exampleVault [''a''])))) ''Notes/gone.md''
     = Some (TFile c'))"
proof -
  let ?env = "exampleEnv [exampleItem [''a''] 5] 10 []"
  let ?st = "exampleState Map.empty Map.empty (exampleVault [''a''])"
  have h: "vault ?st ''Notes/gone.md'' = Some (TFile ''an old note'')"
    by (simp add: exampleState_def exampleVault_def)
  have a: "vault (snd (syncAll ?env ?st)) ''Notes/gone.md'' = Some (TFile ''an old note'')"
    by code_simp
  from C9_no_document_is_deleted [of ?st ?env "''K''"] h
  have "\<exists>c'. vault (snd (syncSingleItem ?env ''K'' ?st)) ''Notes/gone.md'' = Some (TFile c')"
    by blast
  with a show ?thesis by blast
qed

section \<open>Errors of one record\<close>









section \<open>The skip decision\<close>

lemma resolveFilename_Inr:
  assumes "resolveFilename env itemKey item st = (Inr filename, st1)"
  shows "itemVersions st1 = itemVersions st \<and> lastSyncedTags st1 = lastSyncedTags st \<and>
     vault st1 = vault st \<and> outputFolder st1 = outputFolder st \<and> zoteroCacheDir st1 = zoteroCacheDir st"
  using assms by (auto simp: resolveFilename_def Let_def split: option.splits if_splits)

lemma shouldSkip_iff:
  "shouldSkip st item existingFile \<longleftrightarrow>
     (\<exists>stored content. itemVersions st (key item) = Some stored \<and> \<not> stored < version item \<and>
        existingFile = Some (TFile content) \<and>
        \<not> (hasLocalCache st \<and> strIncludes content ''[Area highlight'') \<and>
        \<not> (\<exists>lastSynced. lastSyncedTags st (key item) = Some lastSynced \<and>
             \<not> tagsEqual (parseFrontmatterTags content) lastSynced))"
  by (auto simp: shouldSkip_def isItemChanged_def hasMissingImageAnnotations_def hasLocalTagChanges_def
      split: option.splits AbstractFile.splits)

lemma processItem_not_skipped:
  assumes "resolveFilename env (key item) item st = (Inr filename, st1)"
    and "\<not> shouldSkip st1 item (vault st1 (filePathOf env st1 filename))"
  shows "skipped (fst (processItem env item (res, st))) = skipped res"
proof -
  let ?filePath = "filePathOf env st1 filename"
  obtain b st2 where bs: "buildSyncData env item st1 = (b, st2)"
    by (cases "buildSyncData env item st1")
  show ?thesis
  proof (cases b)
    case (Some e)
    with assms bs show ?thesis
      by (simp add: processItem_def processItemBody_def Let_def)
  next
    case None
    obtain thrown res' st' where rw:
      "reconcileAndWrite env item filename ?filePath (vault st1 ?filePath) res st2 = (thrown, res', st')"
      by (cases "reconcileAndWrite env item filename ?filePath (vault st1 ?filePath) res st2") auto
    from reconcileAndWrite_outcome [OF rw] have "skipped res' = skipped res"
      by blast
    with assms bs None rw show ?thesis
      by (cases thrown) (simp_all add: processItem_def processItemBody_def Let_def)
  qed
qed

lemma processItem_skip_iff:
  assumes "resolveFilename env (key item) item st = (Inr filename, st1)"
  shows "(processItem env item (res, st) = (res\<lparr>skipped := skipped res + 1\<rparr>, st1) \<longleftrightarrow>
       (\<exists>stored content. itemVersions st (key item) = Some stored \<and> \<not> stored < version item \<and>
          vault st (filePathOf env st filename) = Some (TFile content) \<and>
          \<not> (hasLocalCache st \<and> strIncludes content ''[Area highlight'') \<and>
          \<not> (\<exists>lastSynced. lastSyncedTags st (key item) = Some lastSynced \<and>
               \<not> tagsEqual (parseFrontmatterTags content) lastSynced))) \<and>
     (skipped (fst (processItem env item (res, st))) = skipped res \<or>
      processItem env item (res, st) = (res\<lparr>skipped := skipped res + 1\<rparr>, st1))"
proof -
  let ?filePath = "filePathOf env st1 filename"
  note r = resolveFilename_Inr [OF assms]
  have fp: "?filePath = filePathOf env st filename"
    using r by (simp add: filePathOf_def)
  have cache: "hasLocalCache st1 = hasLocalCache st"
    using r by (simp add: hasLocalCache_def)
  have iff: "shouldSkip st1 item (vault st1 ?filePath) \<longleftrightarrow>
       (\<exists>stored content. itemVersions st (key item) = Some stored \<and> \<not> stored < version item \<and>
          vault st (filePathOf env st filename) = Some (TFile content) \<and>
          \<not> (hasLocalCache st \<and> strIncludes content ''[Area highlight'') \<and>
          \<not> (\<exists>lastSynced. lastSyncedTags st (key item) = Some lastSynced \<and>
               \<not> tagsEqual (parseFrontmatterTags content) lastSynced))"
    unfolding shouldSkip_iff fp cache using r by simp
  show ?thesis
  proof (cases "shouldSkip st1 item (vault st1 ?filePath)")
    case True
    with assms have "processItem env item (res, st) = (res\<lparr>skipped := skipped res + 1\<rparr>, st1)"
      by (simp add: processItem_def processItemBody_def Let_def)
    with True iff show ?thesis by simp
  next
    case False
    from processItem_not_skipped [OF assms False]
    have s: "skipped (fst (processItem env item (res, st))) = skipped res" .
    then have "processItem env item (res, st) \<noteq> (res\<lparr>skipped := skipped res + 1\<rparr>, st1)"
      by auto
    with False iff s show ?thesis by simp
  qed
qed

text \<open>
  Claim C5, evaluated. The structural reasons come first and the two side conditions
  are tested as the claim says, but the test for missing annotation images looks for the
  text \<open>[Area highlight\<close>, while the renderer writes \<open>[Image - see PDF]\<close> (with a long
  dash) for an image annotation without image. The item \<open>K\<close> is at its stored version 5,
  its note exists with the last-synced tags, a local cache is configured, and the note
  holds the renderer's line for a missing image: the test finds no missing image and the
  item is skipped. With \<open>[Area highlight\<close> in the note the same item is processed.
\<close>

theorem C5_missing_image_is_not_detected:
  "hasLocalCache ((exampleState [''K'' \<mapsto> 5] [''K'' \<mapsto> [''a'']] Map.empty)\<lparr>zoteroCacheDir := Some ''/zotero/cache''\<rparr>) \<and>
   strIncludes (exampleNoteWithImage [''a''] (imagePlaceholderLine ''[Image (p. 3)](zotero://open-pdf)''))
     (imagePlaceholderLine []) \<and>
   \<not> hasMissingImageAnnotations
       ((exampleState [''K'' \<mapsto> 5] [''K'' \<mapsto> [''a'']] Map.empty)\<lparr>zoteroCacheDir := Some ''/zotero/cache''\<rparr>)
       (exampleNoteWithImage [''a''] (imagePlaceholderLine ''[Image (p. 3)](zotero://open-pdf)'')) \<and>
   fst (processItem (exampleEnv [] 10 []) (exampleItem [''a''] 5)
          (emptyResult,
           (exampleState [''K'' \<mapsto> 5] [''K'' \<mapsto> [''a'']]
              ((exampleVault [''a''])(''Notes/K.md'' \<mapsto>
                 TFile (exampleNoteWithImage [''a''] (imagePlaceholderLine ''[Image (p. 3)](zotero://open-pdf)''))))
           )\<lparr>zoteroCacheDir := Some ''/zotero/cache''\<rparr>))
     = \<lparr>created = 0, updated = 0, skipped = 1, errors = []\<rparr> \<and>
   fst (processItem (exampleEnv [] 10 []) (exampleItem [''a''] 5)
          (emptyResult,
           (exampleState [''K'' \<mapsto> 5] [''K'' \<mapsto> [''a'']]
              ((exampleVault [''a''])(''Notes/K.md'' \<mapsto>
                 TFile (exampleNoteWithImage [''a''] ''[Area highlight - see PDF] [(p. 3)](zotero://open-pdf)'')))
           )\<lparr>zoteroCacheDir := Some ''/zotero/cache''\<rparr>))
     = \<lparr>created = 0, updated = 1, skipped = 0, errors = []\<rparr>"
  by code_simp

section \<open>An unchanged library\<close>

lemma syncAllBody_cursor:
  assumes "syncAllBody env res st = (None, res', st')"
    and "fetchItemsByTag env (syncTag st)
           (if lastSyncVersion st > 0 then Some (lastSyncVersion st) else None) = Inr (items, libraryVersion)"
    and "0 < libraryVersion \<or> 0 < lastSyncVersion st"
  shows "0 < lastSyncVersion st' \<and> userId st' \<noteq> []"
proof -
  from assms(1) have u: "userId st \<noteq> []" and fc: "fetchCollections env = None"
    by (auto simp: syncAllBody_def split: if_splits option.splits)
  from syncAllBody_outcome [OF assms(1)] u have u': "userId st' \<noteq> []"
    by simp
  show ?thesis
  proof (cases "items = [] \<and> lastSyncVersion st > 0")
    case True
    with assms u fc have "st' = st"
      by (auto simp: syncAllBody_def Let_def getLibraryVersion_def)
    with True u' show ?thesis by simp
  next
    case False
    obtain t v1 where ef: "ensureFolder env (outputFolder st) (vault st) = (t, v1)"
      by (cases "ensureFolder env (outputFolder st) (vault st)")
    obtain res1 st1 where pi: "processItems env (filter isTopLevel items) (res, st\<lparr>vault := v1\<rparr>) = (res1, st1)"
      by (cases "processItems env (filter isTopLevel items) (res, st\<lparr>vault := v1\<rparr>)")
    from processItems_outcome [OF pi] have l: "lastSyncVersion st1 = lastSyncVersion st"
      by (simp add: framed_def)
    from assms(1,2) u fc False ef pi have t: "t = None"
      by (cases t) (auto simp: syncAllBody_def Let_def getLibraryVersion_def)
    from assms(1,2) u fc False ef pi t
    have "(0 < libraryVersion \<and> st' = snd (setLibraryVersion env libraryVersion st1)) \<or>
          (\<not> 0 < libraryVersion \<and> st' = st1)"
      by (auto simp: syncAllBody_def Let_def getLibraryVersion_def split: prod.splits if_splits)
    with assms(3) l u' show ?thesis
      by (auto simp: setLibraryVersion_fields)
  qed
qed

lemma syncAll_no_changes:
  assumes "\<not> isSyncing st" and "userId st \<noteq> []" and "fetchCollections env = None"
    and "0 < lastSyncVersion st"
    and "fetchItemsByTag env (syncTag st) (Some (lastSyncVersion st)) = Inr ([], lv)"
  shows "syncAll env st = (emptyResult, st)"
proof -
  have "syncAllBody env emptyResult (st\<lparr>isSyncing := True\<rparr>) = (None, emptyResult, st\<lparr>isSyncing := True\<rparr>)"
    using assms by (simp add: syncAllBody_def Let_def getLibraryVersion_def)
  moreover have "st\<lparr>isSyncing := True\<rparr>\<lparr>isSyncing := False\<rparr> = st"
    using assms(1) by simp
  ultimately show ?thesis
    using assms(1) by (simp add: syncAll_def)
qed

lemma processItem_skipped:
  assumes "itemFilenames st (key item) = Some f" and "f \<noteq> []"
    and "shouldSkip st item (vault st (filePathOf env st f))"
  shows "processItem env item (res, st) = (res\<lparr>skipped := skipped res + 1\<rparr>, st)"
  using assms by (simp add: processItem_def processItemBody_def resolveFilename_def Let_def)

lemma processItems_all_skipped:
  assumes "\<forall>item\<in>set items. \<exists>f. itemFilenames st (key item) = Some f \<and> f \<noteq> [] \<and>
             shouldSkip st item (vault st (filePathOf env st f))"
  shows "processItems env items (res, st) = (res\<lparr>skipped := skipped res + length items\<rparr>, st)"
  using assms
proof (induction items arbitrary: res)
  case Nil
  then show ?case by simp
next
  case (Cons item rest)
  from Cons.prems obtain f where f: "itemFilenames st (key item) = Some f" "f \<noteq> []"
      "shouldSkip st item (vault st (filePathOf env st f))"
    by auto
  from Cons.prems have rest: "\<forall>item\<in>set rest. \<exists>f. itemFilenames st (key item) = Some f \<and> f \<noteq> [] \<and>
             shouldSkip st item (vault st (filePathOf env st f))"
    by simp
  show ?case
    using processItem_skipped [OF f, of res] Cons.IH [OF rest, of "res\<lparr>skipped := skipped res + 1\<rparr>"]
    by simp
qed

lemma shouldSkip_isSyncing:
  "shouldSkip (st\<lparr>isSyncing := b\<rparr>) item existingFile = shouldSkip st item existingFile"
  by (simp add: shouldSkip_iff hasLocalCache_def)

lemma syncAll_all_skipped:
  assumes "\<not> isSyncing st" and "userId st \<noteq> []" and "fetchCollections env = None"
    and "fetchItemsByTag env (syncTag st)
           (if lastSyncVersion st > 0 then Some (lastSyncVersion st) else None) = Inr (items, lv)"
    and "\<not> (items = [] \<and> 0 < lastSyncVersion st)"
    and "vault st (normalizePath env (outputFolder st)) \<noteq> None"
    and "\<forall>item\<in>set items. isTopLevel item \<longrightarrow>
           (\<exists>f. itemFilenames st (key item) = Some f \<and> f \<noteq> [] \<and>
                shouldSkip st item (vault st (filePathOf env st f)))"
  shows "created (fst (syncAll env st)) = 0 \<and> updated (fst (syncAll env st)) = 0 \<and>
     skipped (fst (syncAll env st)) = length (filter isTopLevel items) \<and>
     snd (syncAll env st) = (if 0 < lv then st\<lparr>lastSyncVersion := lv\<rparr> else st) \<and>
     (\<not> 0 < lv \<or> saveSettings env (st\<lparr>isSyncing := True, lastSyncVersion := lv\<rparr>) = None
        \<longrightarrow> errors (fst (syncAll env st)) = [])"
proof -
  let ?st = "st\<lparr>isSyncing := True\<rparr>"
  let ?items = "filter isTopLevel items"
  have ef: "ensureFolder env (outputFolder ?st) (vault ?st) = (None, vault st)"
    using assms(6) by (auto simp: ensureFolder_def Let_def)
  have v: "?st\<lparr>vault := vault st\<rparr> = ?st"
    by simp
  have "\<forall>item\<in>set ?items. \<exists>f. itemFilenames ?st (key item) = Some f \<and> f \<noteq> [] \<and>
             shouldSkip ?st item (vault ?st (filePathOf env ?st f))"
    using assms(7) by (simp add: shouldSkip_isSyncing filePathOf_def)
  from processItems_all_skipped [OF this, of emptyResult]
  have pi: "processItems env ?items (emptyResult, ?st) = (emptyResult\<lparr>skipped := length ?items\<rparr>, ?st)"
    by (simp add: emptyResult_def)
  have unset: "st\<lparr>isSyncing := False\<rparr> = st"
    using assms(1) by simp
  show ?thesis
  proof (cases "0 < lv")
    case True
    have body: "syncAllBody env emptyResult ?st =
        (saveSettings env (?st\<lparr>lastSyncVersion := lv\<rparr>), emptyResult\<lparr>skipped := length ?items\<rparr>,
         ?st\<lparr>lastSyncVersion := lv\<rparr>)"
      using assms(2,3,4,5) ef pi True
      by (auto simp: syncAllBody_def Let_def getLibraryVersion_def setLibraryVersion_def v
          cong del: if_weak_cong)
    have fin: "?st\<lparr>lastSyncVersion := lv\<rparr>\<lparr>isSyncing := False\<rparr> = st\<lparr>lastSyncVersion := lv\<rparr>"
      using assms(1) by simp
    show ?thesis
      using assms(1) body True fin
      by (cases "saveSettings env (?st\<lparr>lastSyncVersion := lv\<rparr>)")
        (simp_all add: syncAll_def emptyResult_def)
  next
    case False
    have body: "syncAllBody env emptyResult ?st = (None, emptyResult\<lparr>skipped := length ?items\<rparr>, ?st)"
      using assms(2,3,4,5) ef pi False
      by (auto simp: syncAllBody_def Let_def getLibraryVersion_def v cong del: if_weak_cong)
    show ?thesis
      using assms(1) body False unset by (simp add: syncAll_def emptyResult_def)
  qed
qed

text \<open>
  Claim C7, as amended. A first cycle that ends without a cycle-level failure, in which
  the remote reported a library version (or an incremental cursor was already stored),
  leaves a positive library version. When the incremental fetch of the second cycle at
  that version reports no changes, the second cycle returns at once with all counts zero
  and no error, and the state after it, with the library version, the item versions and
  the last-synced tags, is the state before it; an incremental fetch that reports no
  items ends every cycle of an idle state with a positive library version in this way.
  A cycle that does receive items, each of them with a stored filename, a stored version
  not below its own, its note in the vault and no side condition, skips them all:
  nothing is created or updated, the item versions, the last-synced tags and the vault
  are unchanged, and the library version is the one the remote reported, if it reported
  one. A second cycle that receives an item with a newer version is not covered.
\<close>

theorem C7_second_cycle_without_changes_is_idempotent:
  assumes "\<not> isSyncing st0"
    and "syncAllBody env1 emptyResult (st0\<lparr>isSyncing := True\<rparr>) = (None, res1, st1)"
    and "fetchItemsByTag env1 (syncTag st0)
           (if lastSyncVersion st0 > 0 then Some (lastSyncVersion st0) else None) = Inr (items, libraryVersion)"
    and "0 < libraryVersion \<or> 0 < lastSyncVersion st0"
    and "fetchCollections env2 = None"
    and "fetchItemsByTag env2 (syncTag st0) (Some (lastSyncVersion st1)) = Inr ([], lv)"
  shows "syncAll env1 st0 = (res1, st1\<lparr>isSyncing := False\<rparr>) \<and>
     0 < lastSyncVersion st1 \<and>
     syncAll env2 (st1\<lparr>isSyncing := False\<rparr>) =
       (\<lparr>created = 0, updated = 0, skipped = 0, errors = []\<rparr>, st1\<lparr>isSyncing := False\<rparr>) \<and>
     (\<not> isSyncing st \<and> userId st \<noteq> [] \<and> fetchCollections env = None \<and> 0 < lastSyncVersion st \<and>
      fetchItemsByTag env (syncTag st) (Some (lastSyncVersion st)) = Inr ([], lv') \<longrightarrow>
      syncAll env st = (\<lparr>created = 0, updated = 0, skipped = 0, errors = []\<rparr>, st)) \<and>
     (\<not> isSyncing st \<and> userId st \<noteq> [] \<and> fetchCollections env = None \<and>
      fetchItemsByTag env (syncTag st)
        (if lastSyncVersion st > 0 then Some (lastSyncVersion st) else None) = Inr (items', lv'') \<and>
      \<not> (items' = [] \<and> 0 < lastSyncVersion st) \<and>
      vault st (normalizePath env (outputFolder st)) \<noteq> None \<and>
      (\<forall>item\<in>set items'. isTopLevel item \<longrightarrow>
         (\<exists>f. itemFilenames st (key item) = Some f \<and> f \<noteq> [] \<and>
              shouldSkip st item (vault st (filePathOf env st f)))) \<longrightarrow>
      created (fst (syncAll env st)) = 0 \<and> updated (fst (syncAll env st)) = 0 \<and>
      skipped (fst (syncAll env st)) = length (filter isTopLevel items') \<and>
      snd (syncAll env st) = (if 0 < lv'' then st\<lparr>lastSyncVersion := lv''\<rparr> else st) \<and>
      itemVersions (snd (syncAll env st)) = itemVersions st \<and>
      lastSyncedTags (snd (syncAll env st)) = lastSyncedTags st \<and>
      vault (snd (syncAll env st)) = vault st \<and>
      (\<not> 0 < lv'' \<or> saveSettings env (st\<lparr>isSyncing := True, lastSyncVersion := lv''\<rparr>) = None
         \<longrightarrow> errors (fst (syncAll env st)) = []))"
proof -
  have alone: "\<not> isSyncing st \<and> userId st \<noteq> [] \<and> fetchCollections env = None \<and> 0 < lastSyncVersion st \<and>
      fetchItemsByTag env (syncTag st) (Some (lastSyncVersion st)) = Inr ([], lv') \<longrightarrow>
      syncAll env st = (\<lparr>created = 0, updated = 0, skipped = 0, errors = []\<rparr>, st)"
    using syncAll_no_changes [of st env lv'] by (simp add: emptyResult_def)
  have skips: "\<not> isSyncing st \<and> userId st \<noteq> [] \<and> fetchCollections env = None \<and>
      fetchItemsByTag env (syncTag st)
        (if lastSyncVersion st > 0 then Some (lastSyncVersion st) else None) = Inr (items', lv'') \<and>
      \<not> (items' = [] \<and> 0 < lastSyncVersion st) \<and>
      vault st (normalizePath env (outputFolder st)) \<noteq> None \<and>
      (\<forall>item\<in>set items'. isTopLevel item \<longrightarrow>
         (\<exists>f. itemFilenames st (key item) = Some f \<and> f \<noteq> [] \<and>
              shouldSkip st item (vault st (filePathOf env st f)))) \<longrightarrow>
      created (fst (syncAll env st)) = 0 \<and> updated (fst (syncAll env st)) = 0 \<and>
      skipped (fst (syncAll env st)) = length (filter isTopLevel items') \<and>
      snd (syncAll env st) = (if 0 < lv'' then st\<lparr>lastSyncVersion := lv''\<rparr> else st) \<and>
      itemVersions (snd (syncAll env st)) = itemVersions st \<and>
      lastSyncedTags (snd (syncAll env st)) = lastSyncedTags st \<and>
      vault (snd (syncAll env st)) = vault st \<and>
      (\<not> 0 < lv'' \<or> saveSettings env (st\<lparr>isSyncing := True, lastSyncVersion := lv''\<rparr>) = None
         \<longrightarrow> errors (fst (syncAll env st)) = [])"
  proof
    assume h: "\<not> isSyncing st \<and> userId st \<noteq> [] \<and> fetchCollections env = None \<and>
      fetchItemsByTag env (syncTag st)
        (if lastSyncVersion st > 0 then Some (lastSyncVersion st) else None) = Inr (items', lv'') \<and>
      \<not> (items' = [] \<and> 0 < lastSyncVersion st) \<and>
      vault st (normalizePath env (outputFolder st)) \<noteq> None \<and>
      (\<forall>item\<in>set items'. isTopLevel item \<longrightarrow>
         (\<exists>f. itemFilenames st (key item) = Some f \<and> f \<noteq> [] \<and>
              shouldSkip st item (vault st (filePathOf env st f))))"
    have s: "created (fst (syncAll env st)) = 0 \<and> updated (fst (syncAll env st)) = 0 \<and>
      skipped (fst (syncAll env st)) = length (filter isTopLevel items') \<and>
      snd (syncAll env st) = (if 0 < lv'' then st\<lparr>lastSyncVersion := lv''\<rparr> else st) \<and>
      (\<not> 0 < lv'' \<or> saveSettings env (st\<lparr>isSyncing := True, lastSyncVersion := lv''\<rparr>) = None
         \<longrightarrow> errors (fst (syncAll env st)) = [])"
      by (rule syncAll_all_skipped) (use h in blast)+
    then have e: "snd (syncAll env st) = (if 0 < lv'' then st\<lparr>lastSyncVersion := lv''\<rparr> else st)"
      by blast
    have "itemVersions (snd (syncAll env st)) = itemVersions st \<and>
      lastSyncedTags (snd (syncAll env st)) = lastSyncedTags st \<and>
      vault (snd (syncAll env st)) = vault st"
      unfolding e by simp
    with s show "created (fst (syncAll env st)) = 0 \<and> updated (fst (syncAll env st)) = 0 \<and>
      skipped (fst (syncAll env st)) = length (filter isTopLevel items') \<and>
      snd (syncAll env st) = (if 0 < lv'' then st\<lparr>lastSyncVersion := lv''\<rparr> else st) \<and>
      itemVersions (snd (syncAll env st)) = itemVersions st \<and>
      lastSyncedTags (snd (syncAll env st)) = lastSyncedTags st \<and>
      vault (snd (syncAll env st)) = vault st \<and>
      (\<not> 0 < lv'' \<or> saveSettings env (st\<lparr>isSyncing := True, lastSyncVersion := lv''\<rparr>) = None
         \<longrightarrow> errors (fst (syncAll env st)) = [])"
      by blast
  qed
  have first: "syncAll env1 st0 = (res1, st1\<lparr>isSyncing := False\<rparr>)"
    using assms(1,2) by (simp add: syncAll_def)
  have c: "0 < lastSyncVersion st1 \<and> userId st1 \<noteq> []"
    using syncAllBody_cursor [OF assms(2), of items libraryVersion] assms(3,4)
    by (simp cong del: if_weak_cong)
  have tag: "syncTag st1 = syncTag st0"
    using syncAllBody_outcome [OF assms(2)] by simp
  have "syncAll env2 (st1\<lparr>isSyncing := False\<rparr>) = (emptyResult, st1\<lparr>isSyncing := False\<rparr>)"
    using c tag assms(5,6) by (intro syncAll_no_changes) simp_all
  then have second: "syncAll env2 (st1\<lparr>isSyncing := False\<rparr>) =
       (\<lparr>created = 0, updated = 0, skipped = 0, errors = []\<rparr>, st1\<lparr>isSyncing := False\<rparr>)"
    by (simp add: emptyResult_def)
  from c have pos: "0 < lastSyncVersion st1"
    by simp
  from first pos second alone skips show ?thesis
    by (intro conjI)
qed

text \<open>
  The claim as stated fails when the first cycle itself changes the remote. The note of
  \<open>K\<close> has the tags \<open>a, c\<close>, the last-synced tags and Zotero have \<open>a\<close>, the item is at its
  stored version 5 and the library at version 10, and the remote accepts tag pushes. The
  first cycle updates the note and sends the PATCH \<open>a, c, obsidian\<close>. The library after
  that PATCH, with nothing else changed, has the item \<open>K\<close> with the tags \<open>a, c\<close> at version
  11. The second cycle fetches the changes since 10, receives \<open>K\<close> and updates its note:
  \<open>updated = 1\<close>, the stored item version goes from 5 to 11 and the library version from
  10 to 11.
\<close>

theorem C7_second_cycle_after_accepted_push_counterexample:
  "fst (syncAll ((exampleEnv [exampleItem [''a''] 5] 10 [])\<lparr>patchItemTags := (\<lambda>k ts v. True)\<rparr>)
          (exampleState [''K'' \<mapsto> 5] [''K'' \<mapsto> [''a'']] (exampleVault [''a'', ''c''])))
     = \<lparr>created = 0, updated = 1, skipped = 0, errors = []\<rparr> \<and>
   patchRequests (snd (syncAll ((exampleEnv [exampleItem [''a''] 5] 10 [])\<lparr>patchItemTags := (\<lambda>k ts v. True)\<rparr>)
          (exampleState [''K'' \<mapsto> 5] [''K'' \<mapsto> [''a'']] (exampleVault [''a'', ''c'']))))
     = [(''K'', [''a'', ''c'', ''obsidian''], 5)] \<and>
   itemVersions (snd (syncAll ((exampleEnv [exampleItem [''a''] 5] 10 [])\<lparr>patchItemTags := (\<lambda>k ts v. True)\<rparr>)
          (exampleState [''K'' \<mapsto> 5] [''K'' \<mapsto> [''a'']] (exampleVault [''a'', ''c''])))) ''K''
     = Some 5 \<and>
   lastSyncVersion (snd (syncAll ((exampleEnv [exampleItem [''a''] 5] 10 [])\<lparr>patchItemTags := (\<lambda>k ts v. True)\<rparr>)
          (exampleState [''K'' \<mapsto> 5] [''K'' \<mapsto> [''a'']] (exampleVault [''a'', ''c'']))))
     = 10 \<and>
   fst (syncAll ((exampleEnv [exampleItem [''a'', ''c''] 11] 11 [])\<lparr>patchItemTags := (\<lambda>k ts v. True)\<rparr>)
          (snd (syncAll ((exampleEnv [exampleItem [''a''] 5] 10 [])\<lparr>patchItemTags := (\<lambda>k ts v. True)\<rparr>)
             (exampleState [''K'' \<mapsto> 5] [''K'' \<mapsto> [''a'']] (exampleVault [''a'', ''c''])))))
     = \<lparr>created = 0, updated = 1, skipped = 0, errors = []\<rparr> \<and>
   itemVersions (snd (syncAll ((exampleEnv [exampleItem [''a'', ''c''] 11] 11 [])\<lparr>patchItemTags := (\<lambda>k ts v. True)\<rparr>)
          (snd (syncAll ((exampleEnv [exampleItem [''a''] 5] 10 [])\<lparr>patchItemTags := (\<lambda>k ts v. True)\<rparr>)
             (exampleState [''K'' \<mapsto> 5] [''K'' \<mapsto> [''a'']] (exampleVault [''a'', ''c'']))))))
        ''K''
     = Some 11 \<and>
   lastSyncVersion (snd (syncAll ((exampleEnv [exampleItem [''a'', ''c''] 11] 11 [])\<lparr>patchItemTags := (\<lambda>k ts v. True)\<rparr>)
          (snd (syncAll ((exampleEnv [exampleItem [''a''] 5] 10 [])\<lparr>patchItemTags := (\<lambda>k ts v. True)\<rparr>)
             (exampleState [''K'' \<mapsto> 5] [''K'' \<mapsto> [''a'']] (exampleVault [''a'', ''c'']))))))
     = 11"
  by code_simp

theorem C7_second_cycle_witness:
  "fst (syncAll (exampleEnv [exampleItem [''a''] 5] 10 [])
          (exampleState Map.empty Map.empty (exampleVault [''a''])))
     = \<lparr>created = 0, updated = 1, skipped = 0, errors = []\<rparr> \<and>
   syncAll (exampleEnv [exampleItem [''a''] 5] 10 [])
       (snd (syncAll (exampleEnv [exampleItem [''a''] 5] 10 [])
               (exampleState Map.empty Map.empty (exampleVault [''a'']))))
     = (\<lparr>created = 0, updated = 0, skipped = 0, errors = []\<rparr>,
        snd (syncAll (exampleEnv [exampleItem [''a''] 5] 10 [])
               (exampleState Map.empty Map.empty (exampleVault [''a''])))) \<and>
   skipped (fst (syncAll (exampleEnv [exampleItem [''a''] 5] 0 [])
          (exampleState [''K'' \<mapsto> 5] [''K'' \<mapsto> [''a'']] (exampleVault [''a''])))) = 1 \<and>
   updated (fst (syncAll (exampleEnv [exampleItem [''a''] 5] 0 [])
          (exampleState [''K'' \<mapsto> 5] [''K'' \<mapsto> [''a'']] (exampleVault [''a''])))) = 0 \<and>
   snd (syncAll (exampleEnv [exampleItem [''a''] 5] 0 [])
          (exampleState [''K'' \<mapsto> 5] [''K'' \<mapsto> [''a'']] (exampleVault [''a''])))
     = exampleState [''K'' \<mapsto> 5] [''K'' \<mapsto> [''a'']] (exampleVault [''a''])"
proof -
  let ?env = "exampleEnv [exampleItem [''a''] 5] 10 []"
  let ?st = "exampleState Map.empty Map.empty (exampleVault [''a''])"
  let ?b = "syncAllBody ?env emptyResult (?st\<lparr>isSyncing := True\<rparr>)"
  let ?env' = "exampleEnv [exampleItem [''a''] 5] 0 []"
  let ?st' = "exampleState [''K'' \<mapsto> 5] [''K'' \<mapsto> [''a'']] (exampleVault [''a''])"
  have h1: "\<not> isSyncing ?st"
    by (simp add: exampleState_def)
  have "fst ?b = None"
    by code_simp
  then have h2: "?b = (None, fst (snd ?b), snd (snd ?b))"
    by (metis prod.collapse)
  have h3: "fetchItemsByTag ?env (syncTag ?st)
           (if lastSyncVersion ?st > 0 then Some (lastSyncVersion ?st) else None)
         = Inr ([exampleItem [''a''] 5], 10)"
    by (simp add: exampleEnv_def exampleState_def)
  have h4: "(0::int) < 10 \<or> 0 < lastSyncVersion ?st"
    by simp
  have h5: "fetchCollections ?env = None"
    by (simp add: exampleEnv_def)
  have l: "lastSyncVersion (snd (snd ?b)) = 10"
    by code_simp
  have h6: "fetchItemsByTag ?env (syncTag ?st) (Some (lastSyncVersion (snd (snd ?b)))) = Inr ([], 10)"
    unfolding l by (simp add: exampleEnv_def exampleItem_def)
  have f: "fst (syncAll ?env ?st) = \<lparr>created = 0, updated = 1, skipped = 0, errors = []\<rparr>"
    by code_simp
  have g1: "\<not> isSyncing ?st' \<and> userId ?st' \<noteq> [] \<and> fetchCollections ?env' = None"
    by (simp add: exampleState_def exampleEnv_def)
  have g2: "fetchItemsByTag ?env' (syncTag ?st')
        (if lastSyncVersion ?st' > 0 then Some (lastSyncVersion ?st') else None)
      = Inr ([exampleItem [''a''] 5], 0)"
    by (simp add: exampleEnv_def exampleState_def)
  have g3: "\<not> ([exampleItem [''a''] 5] = [] \<and> 0 < lastSyncVersion ?st')"
    by simp
  have g4: "vault ?st' (normalizePath ?env' (outputFolder ?st')) \<noteq> None"
    by (simp add: exampleState_def exampleEnv_def exampleVault_def)
  have g5a: "itemFilenames ?st' (key (exampleItem [''a''] 5)) = Some ''K''"
    by (simp add: exampleState_def exampleItem_def)
  have g5b: "shouldSkip ?st' (exampleItem [''a''] 5) (vault ?st' (filePathOf ?env' ?st' ''K''))"
    by code_simp
  from g5a g5b have g5: "\<forall>item\<in>set [exampleItem [''a''] 5]. isTopLevel item \<longrightarrow>
         (\<exists>f. itemFilenames ?st' (key item) = Some f \<and> f \<noteq> [] \<and>
              shouldSkip ?st' item (vault ?st' (filePathOf ?env' ?st' f)))"
    by simp
  have t: "isTopLevel (exampleItem [''a''] 5)"
    by (simp add: isTopLevel_def exampleItem_def)
  note th = C7_second_cycle_without_changes_is_idempotent [OF h1 h2 h3 h4 h5 h6,
      where env = ?env' and st = ?st' and items' = "[exampleItem [''a''] 5]" and lv'' = 0]
  from th have s: "snd (syncAll ?env ?st) = (snd (snd ?b))\<lparr>isSyncing := False\<rparr>"
    by simp
  from th have r: "syncAll ?env ((snd (snd ?b))\<lparr>isSyncing := False\<rparr>) =
       (\<lparr>created = 0, updated = 0, skipped = 0, errors = []\<rparr>, (snd (snd ?b))\<lparr>isSyncing := False\<rparr>)"
    by blast
  from th g1 g2 g3 g4 g5 have k: "updated (fst (syncAll ?env' ?st')) = 0 \<and>
      skipped (fst (syncAll ?env' ?st')) = length (filter isTopLevel [exampleItem [''a''] 5]) \<and>
      snd (syncAll ?env' ?st') = (if (0::int) < 0 then ?st'\<lparr>lastSyncVersion := 0\<rparr> else ?st')"
    by blast
  from s r f k t show ?thesis by simp
qed

section \<open>A rejected tag push\<close>

text \<open>
  Claim C4, evaluated. The merge never consults the answer of \<open>patchItemTags\<close>: its
  result and the state it leaves, with the last-synced tags, are the same whether the
  remote accepts or rejects the push. The note of \<open>K\<close> has the tags \<open>a, c\<close>, the last-synced tags and
  Zotero have \<open>a\<close>, the item is at its stored version 5, and the remote rejects the push.
  The first cycle does not fail: it updates the note with the merged tags \<open>a, c\<close> and
  sends one PATCH. It also stores \<open>a, c\<close> as the last-synced tags. So in a second cycle
  over the same library the item is skipped and no PATCH is sent; and in a second cycle
  in which Zotero has the item at version 6, still with the tag \<open>a\<close>, the merge takes
  \<open>c\<close> for a tag deleted in Zotero: the note is left with \<open>a\<close> and no PATCH is sent.
\<close>

theorem C4_rejected_push_is_not_retried:
  "syncTagsTwoWay (env\<lparr>patchItemTags := answer\<rparr>) st item existingContent =
     syncTagsTwoWay env st item existingContent \<and>
   patchItemTags (exampleEnv [exampleItem [''a''] 5] 0 []) ''K'' [''a'', ''c'', ''obsidian''] 5 = False \<and>
   fst (syncAll (exampleEnv [exampleItem [''a''] 5] 0 [])
          (exampleState [''K'' \<mapsto> 5] [''K'' \<mapsto> [''a'']] (exampleVault [''a'', ''c''])))
     = \<lparr>created = 0, updated = 1, skipped = 0, errors = []\<rparr> \<and>
   patchRequests (snd (syncAll (exampleEnv [exampleItem [''a''] 5] 0 [])
          (exampleState [''K'' \<mapsto> 5] [''K'' \<mapsto> [''a'']] (exampleVault [''a'', ''c'']))))
     = [(''K'', [''a'', ''c'', ''obsidian''], 5)] \<and>
   noteTags (snd (syncAll (exampleEnv [exampleItem [''a''] 5] 0 [])
          (exampleState [''K'' \<mapsto> 5] [''K'' \<mapsto> [''a'']] (exampleVault [''a'', ''c''])))) ''Notes/K.md''
     = [''a'', ''c''] \<and>
   lastSyncedTags (snd (syncAll (exampleEnv [exampleItem [''a''] 5] 0 [])
          (exampleState [''K'' \<mapsto> 5] [''K'' \<mapsto> [''a'']] (exampleVault [''a'', ''c''])))) ''K''
     = Some [''a'', ''c''] \<and>
   fst (syncAll (exampleEnv [exampleItem [''a''] 5] 0 [])
          (snd (syncAll (exampleEnv [exampleItem [''a''] 5] 0 [])
             (exampleState [''K'' \<mapsto> 5] [''K'' \<mapsto> [''a'']] (exampleVault [''a'', ''c''])))))
     = \<lparr>created = 0, updated = 0, skipped = 1, errors = []\<rparr> \<and>
   patchRequests (snd (syncAll (exampleEnv [exampleItem [''a''] 5] 0 [])
          (snd (syncAll (exampleEnv [exampleItem [''a''] 5] 0 [])
             (exampleState [''K'' \<mapsto> 5] [''K'' \<mapsto> [''a'']] (exampleVault [''a'', ''c'']))))))
     = [(''K'', [''a'', ''c'', ''obsidian''], 5)] \<and>
   fst (syncAll (exampleEnv [exampleItem [''a''] 6] 0 [])
          (snd (syncAll (exampleEnv [exampleItem [''a''] 5] 0 [])
             (exampleState [''K'' \<mapsto> 5] [''K'' \<mapsto> [''a'']] (exampleVault [''a'', ''c''])))))
     = \<lparr>created = 0, updated = 1, skipped = 0, errors = []\<rparr> \<and>
   patchRequests (snd (syncAll (exampleEnv [exampleItem [''a''] 6] 0 [])
          (snd (syncAll (exampleEnv [exampleItem [''a''] 5] 0 [])
             (exampleState [''K'' \<mapsto> 5] [''K'' \<mapsto> [''a'']] (exampleVault [''a'', ''c'']))))))
     = [(''K'', [''a'', ''c'', ''obsidian''], 5)] \<and>
   noteTags (snd (syncAll (exampleEnv [exampleItem [''a''] 6] 0 [])
          (snd (syncAll (exampleEnv [exampleItem [''a''] 5] 0 [])
             (exampleState [''K'' \<mapsto> 5] [''K'' \<mapsto> [''a'']] (exampleVault [''a'', ''c'']))))))
       ''Notes/K.md''
     = [''a'']"
proof -
  have general: "syncTagsTwoWay (env\<lparr>patchItemTags := answer\<rparr>) st item existingContent =
     syncTagsTwoWay env st item existingContent"
    by (simp add: syncTagsTwoWay_def storeLastSyncedTags_def Let_def split: option.splits)
  have run: "patchItemTags (exampleEnv [exampleItem [''a''] 5] 0 []) ''K'' [''a'', ''c'', ''obsidian''] 5 = False \<and>
   fst (syncAll (exampleEnv [exampleItem [''a''] 5] 0 [])
          (exampleState [''K'' \<mapsto> 5] [''K'' \<mapsto> [''a'']] (exampleVault [''a'', ''c''])))
     = \<lparr>created = 0, updated = 1, skipped = 0, errors = []\<rparr> \<and>
   patchRequests (snd (syncAll (exampleEnv [exampleItem [''a''] 5] 0 [])
          (exampleState [''K'' \<mapsto> 5] [''K'' \<mapsto> [''a'']] (exampleVault [''a'', ''c'']))))
     = [(''K'', [''a'', ''c'', ''obsidian''], 5)] \<and>
   noteTags (snd (syncAll (exampleEnv [exampleItem [''a''] 5] 0 [])
          (exampleState [''K'' \<mapsto> 5] [''K'' \<mapsto> [''a'']] (exampleVault [''a'', ''c''])))) ''Notes/K.md''
     = [''a'', ''c''] \<and>
   lastSyncedTags (snd (syncAll (exampleEnv [exampleItem [''a''] 5] 0 [])
          (exampleState [''K'' \<mapsto> 5] [''K'' \<mapsto> [''a'']] (exampleVault [''a'', ''c''])))) ''K''
     = Some [''a'', ''c''] \<and>
   fst (syncAll (exampleEnv [exampleItem [''a''] 5] 0 [])
          (snd (syncAll (exampleEnv [exampleItem [''a''] 5] 0 [])
             (exampleState [''K'' \<mapsto> 5] [''K'' \<mapsto> [''a'']] (exampleVault [''a'', ''c''])))))
     = \<lparr>created = 0, updated = 0, skipped = 1, errors = []\<rparr> \<and>
   patchRequests (snd (syncAll (exampleEnv [exampleItem [''a''] 5] 0 [])
          (snd (syncAll (exampleEnv [exampleItem [''a''] 5] 0 [])
             (exampleState [''K'' \<mapsto> 5] [''K'' \<mapsto> [''a'']] (exampleVault [''a'', ''c'']))))))
     = [(''K'', [''a'', ''c'', ''obsidian''], 5)] \<and>
   fst (syncAll (exampleEnv [exampleItem [''a''] 6] 0 [])
          (snd (syncAll (exampleEnv [exampleItem [''a''] 5] 0 [])
             (exampleState [''K'' \<mapsto> 5] [''K'' \<mapsto> [''a'']] (exampleVault [''a'', ''c''])))))
     = \<lparr>created = 0, updated = 1, skipped = 0, errors = []\<rparr> \<and>
   patchRequests (snd (syncAll (exampleEnv [exampleItem [''a''] 6] 0 [])
          (snd (syncAll (exampleEnv [exampleItem [''a''] 5] 0 [])
             (exampleState [''K'' \<mapsto> 5] [''K'' \<mapsto> [''a'']] (exampleVault [''a'', ''c'']))))))
     = [(''K'', [''a'', ''c'', ''obsidian''], 5)] \<and>
   noteTags (snd (syncAll (exampleEnv [exampleItem [''a''] 6] 0 [])
          (snd (syncAll (exampleEnv [exampleItem [''a''] 5] 0 [])
             (exampleState [''K'' \<mapsto> 5] [''K'' \<mapsto> [''a'']] (exampleVault [''a'', ''c'']))))))
       ''Notes/K.md''
     = [''a'']"
    by code_simp
  from general run show ?thesis
    by (rule conjI)
qed

end
